theory Spec2Isabelle
  imports Main "HOL-Library.Word" "HOL-Library.Multiset"
begin

section \<open>The request queue of colly (\<^verbatim>\<open>queue/queue.go\<close>)\<close>

text \<open>
  The theory embeds \<^verbatim>\<open>queue.go\<close>: the in-memory storage backend (a singly linked
  list of heap nodes with a size counter), the coordinator \<^verbatim>\<open>Queue\<close> (constructor,
  enqueue, the guard of \<^verbatim>\<open>Run\<close>) and the dispatch loop with its workers.

  Conventions of the embedding.
  \<^item> A Go pointer is an \<open>option\<close>: \<open>None\<close> is \<^verbatim>\<open>nil\<close>. A Go \<^verbatim>\<open>error\<close> is an
    \<open>error option\<close>: \<open>None\<close> is the \<^verbatim>\<open>nil\<close> error.
  \<^item> A call either returns its results or panics: \<open>'a outcome\<close>. Every function
    returns the state it leaves behind next to its outcome.
  \<^item> \<^verbatim>\<open>colly.Request\<close>, its \<^verbatim>\<open>Marshal\<close>, the collector's \<^verbatim>\<open>UnmarshalRequest\<close>, the JSON
    decoding inside \<^verbatim>\<open>InMemoryQueueStorage.AddRequest\<close> and \<^verbatim>\<open>url.Parse\<close> are declared
    outside \<^verbatim>\<open>queue.go\<close>. A request is a value of a type parameter \<open>'r\<close> and those
    functions are parameters of the definitions that call them.
\<close>

subsection \<open>Values\<close>

type_synonym bytes = "8 word list"

datatype error = ErrQueueFull | ErrOther string

datatype 'a outcome = Return 'a | Panic string

definition nil_dereference :: string where
  "nil_dereference = ''invalid memory address or nil pointer dereference''"

text \<open>
  Go's \<^verbatim>\<open>int\<close> on a 64-bit platform: \<^verbatim>\<open>size++\<close> and \<^verbatim>\<open>size--\<close> wrap around in two's
  complement. The counters are integers and every increment and decrement goes through
  \<open>wrap64\<close>.
\<close>

definition max_int64 :: int where
  "max_int64 = 9223372036854775807"

definition wrap64 :: "int \<Rightarrow> int" where
  "wrap64 n = (n + 9223372036854775808) mod 18446744073709551616 - 9223372036854775808"

subsection \<open>The in-memory storage\<close>

type_synonym addr = nat

text \<open>\<^verbatim>\<open>type inMemoryQueueItem struct { Request *colly.Request; Next *inMemoryQueueItem }\<close>\<close>

record 'r inMemoryQueueItem =
  Request :: "'r option"
  Next :: "addr option"

text \<open>
  The heap of list nodes: the node at address \<open>a\<close> is \<open>h ! a\<close>, and
  \<^verbatim>\<open>&inMemoryQueueItem{...}\<close> allocates the address \<open>length h\<close>. Nodes are never freed
  in the model (Go's collector frees only what is unreachable). A pointer beyond the heap
  cannot arise in Go; so that every function is total, dereferencing one panics as a
  \<^verbatim>\<open>nil\<close> pointer does.
\<close>

type_synonym 'r heap = "'r inMemoryQueueItem list"

datatype RWMutex = RWMutex

text \<open>
  \<^verbatim>\<open>type InMemoryQueueStorage struct { MaxSize int; lock *sync.RWMutex; size int;
  first, last *inMemoryQueueItem }\<close>. The fields \<^verbatim>\<open>size\<close> and \<^verbatim>\<open>last\<close> are \<open>size_q\<close>
  and \<open>last_q\<close> here. Every method takes the lock on entry and releases it on exit
  (\<^verbatim>\<open>defer\<close>), so between two calls the mutex is free and only whether the pointer is
  \<^verbatim>\<open>nil\<close> matters: \<^verbatim>\<open>q.lock.Lock()\<close> on a \<^verbatim>\<open>nil\<close> pointer panics.
\<close>

record InMemoryQueueStorage =
  MaxSize :: int
  lock :: "RWMutex option"
  size_q :: int
  first :: "addr option"
  last_q :: "addr option"

type_synonym 'r mem = "InMemoryQueueStorage \<times> 'r heap"

text \<open>The storage as \<^verbatim>\<open>&InMemoryQueueStorage{MaxSize: n}\<close> builds it: all other fields zero.\<close>

definition new_InMemoryQueueStorage :: "int \<Rightarrow> InMemoryQueueStorage" where
  "new_InMemoryQueueStorage n =
     \<lparr>MaxSize = n, lock = None, size_q = 0, first = None, last_q = None\<rparr>"

definition Mem_Init :: "'r mem \<Rightarrow> error option outcome \<times> 'r mem" where
  "Mem_Init m = (case m of (q, h) \<Rightarrow> (Return None, (q\<lparr>lock := Some RWMutex\<rparr>, h)))"

definition Mem_AddRequestPointer :: "'r option \<Rightarrow> 'r mem \<Rightarrow> error option outcome \<times> 'r mem" where
  "Mem_AddRequestPointer r m = (case m of (q, h) \<Rightarrow>
     if lock q = None then (Panic nil_dereference, m)
     else if MaxSize q > 0 \<and> size_q q \<ge> MaxSize q then (Return (Some ErrQueueFull), m)
     else
       let i = length h;
           h1 = h @ [\<lparr>Request = r, Next = None\<rparr>]
       in if first q = None then
            (Return None,
             (q\<lparr>first := Some i, last_q := Some i, size_q := wrap64 (size_q q + 1)\<rparr>, h1))
          else
            (case last_q q of
               None \<Rightarrow> (Panic nil_dereference, (q, h1))
             | Some l \<Rightarrow>
                 if l < length h1 then
                   (Return None,
                    (q\<lparr>last_q := Some i, size_q := wrap64 (size_q q + 1)\<rparr>,
                     h1[l := (h1 ! l)\<lparr>Next := Some i\<rparr>]))
                 else (Panic nil_dereference, (q, h1))))"

definition Mem_GetRequestPointer :: "'r mem \<Rightarrow> ('r option \<times> error option) outcome \<times> 'r mem" where
  "Mem_GetRequestPointer m = (case m of (q, h) \<Rightarrow>
     if lock q = None then (Panic nil_dereference, m)
     else if size_q q = 0 then (Return (None, None), m)
     else
       (case first q of
          None \<Rightarrow> (Panic nil_dereference, m)
        | Some f \<Rightarrow>
            if f < length h then
              (Return (Request (h ! f), None),
               (q\<lparr>first := Next (h ! f), size_q := wrap64 (size_q q - 1)\<rparr>, h))
            else (Panic nil_dereference, m)))"

text \<open>
  \<^verbatim>\<open>GetRequest\<close> calls \<^verbatim>\<open>r.Marshal()\<close> on whatever pointer the pop returned; \<open>marshal\<close>
  is that method, \<^verbatim>\<open>nil\<close> receiver included.
\<close>

definition Mem_GetRequest ::
  "('r option \<Rightarrow> (bytes \<times> error option) outcome) \<Rightarrow> 'r mem
    \<Rightarrow> (bytes \<times> error option) outcome \<times> 'r mem" where
  "Mem_GetRequest marshal m =
     (case Mem_GetRequestPointer m of
        (Panic s, m') \<Rightarrow> (Panic s, m')
      | (Return (r, err), m') \<Rightarrow>
          if err \<noteq> None then (Return ([], None), m')
          else (marshal r, m'))"

definition Mem_QueueSize :: "'r mem \<Rightarrow> (int \<times> error option) outcome \<times> 'r mem" where
  "Mem_QueueSize m = (case m of (q, h) \<Rightarrow>
     if lock q = None then (Panic nil_dereference, m)
     else (Return (size_q q, None), m))"

text \<open>
  \<^verbatim>\<open>AddRequest\<close> decodes the bytes (\<^verbatim>\<open>json.Unmarshal\<close>, then \<^verbatim>\<open>url.Parse\<close>) and builds
  a request before it touches the list; \<open>decode\<close> is that prefix: the error it stops
  with, or the new request.
\<close>

definition Mem_AddRequest ::
  "(bytes \<Rightarrow> error + 'r) \<Rightarrow> bytes \<Rightarrow> 'r mem \<Rightarrow> error option outcome \<times> 'r mem" where
  "Mem_AddRequest decode b m =
     (case decode b of
        Inl err \<Rightarrow> (Return (Some err), m)
      | Inr req \<Rightarrow> Mem_AddRequestPointer (Some req) m)"


subsection \<open>The list a store holds\<close>

text \<open>
  \<open>chain h p n\<close> follows \<^verbatim>\<open>Next\<close> from \<open>p\<close> for \<open>n\<close> nodes and succeeds when it
  then stands on \<^verbatim>\<open>nil\<close>: the addresses of the nodes, head first.
\<close>

fun chain :: "'r heap \<Rightarrow> addr option \<Rightarrow> nat \<Rightarrow> addr list option" where
  "chain h p 0 = (if p = None then Some [] else None)"
| "chain h p (Suc n) =
     (case p of
        None \<Rightarrow> None
      | Some a \<Rightarrow>
          if a < length h then map_option ((#) a) (chain h (Next (h ! a)) n) else None)"

text \<open>
  A store is well formed when \<^verbatim>\<open>MaxSize\<close> and \<^verbatim>\<open>size\<close> are values of a Go \<^verbatim>\<open>int\<close>,
  \<^verbatim>\<open>size\<close> is not negative, the chain from \<^verbatim>\<open>first\<close> has exactly \<^verbatim>\<open>size\<close> nodes, no
  node occurs twice and, unless the chain is empty, \<^verbatim>\<open>last\<close> is its final node. Nothing
  is asked of \<^verbatim>\<open>last\<close> when the chain is empty.
\<close>

definition store_inv :: "'r mem \<Rightarrow> bool" where
  "store_inv m = (case m of (q, h) \<Rightarrow>
     MaxSize q \<le> max_int64 \<and> 0 \<le> size_q q \<and> size_q q \<le> max_int64 \<and>
     (case chain h (first q) (nat (size_q q)) of
        None \<Rightarrow> False
      | Some as \<Rightarrow> distinct as \<and> (as = [] \<or> last_q q = Some (last as))))"

text \<open>The requests a store holds, oldest first.\<close>

definition contents :: "'r mem \<Rightarrow> 'r option list" where
  "contents m = (case m of (q, h) \<Rightarrow>
     (case chain h (first q) (nat (size_q q)) of
        None \<Rightarrow> []
      | Some as \<Rightarrow> map (\<lambda>a. Request (h ! a)) as))"

text \<open>A sequence of method calls on one store; \<open>calls_state\<close> is the state they leave.\<close>

datatype 'r call =
    CallInit
  | CallAddRequest bytes
  | CallAddRequestPointer "'r option"
  | CallGetRequest
  | CallGetRequestPointer
  | CallQueueSize

fun call_state ::
  "(bytes \<Rightarrow> error + 'r) \<Rightarrow> ('r option \<Rightarrow> (bytes \<times> error option) outcome)
    \<Rightarrow> 'r call \<Rightarrow> 'r mem \<Rightarrow> 'r mem" where
  "call_state decode marshal CallInit m = snd (Mem_Init m)"
| "call_state decode marshal (CallAddRequest b) m = snd (Mem_AddRequest decode b m)"
| "call_state decode marshal (CallAddRequestPointer r) m = snd (Mem_AddRequestPointer r m)"
| "call_state decode marshal CallGetRequest m = snd (Mem_GetRequest marshal m)"
| "call_state decode marshal CallGetRequestPointer m = snd (Mem_GetRequestPointer m)"
| "call_state decode marshal CallQueueSize m = snd (Mem_QueueSize m)"

fun calls_state ::
  "(bytes \<Rightarrow> error + 'r) \<Rightarrow> ('r option \<Rightarrow> (bytes \<times> error option) outcome)
    \<Rightarrow> 'r call list \<Rightarrow> 'r mem \<Rightarrow> 'r mem" where
  "calls_state decode marshal [] m = m"
| "calls_state decode marshal (c # cs) m =
     calls_state decode marshal cs (call_state decode marshal c m)"

subsection \<open>The storage interface and the collaborators\<close>

text \<open>
  \<^verbatim>\<open>q.storage\<close> is a value of the interface \<^verbatim>\<open>Storage\<close>: the in-memory store, which the
  type switches of \<^verbatim>\<open>queue.go\<close> single out, or another implementation, whose state is
  a value of \<open>'x\<close> and whose four methods are fields of \<open>collab\<close>. \<open>collab\<close> also holds
  what \<^verbatim>\<open>queue.go\<close> calls without defining: \<^verbatim>\<open>Request.Marshal\<close>,
  \<^verbatim>\<open>Collector.UnmarshalRequest\<close>, \<^verbatim>\<open>Request.Do\<close>, the decoding prefix of the in-memory
  \<^verbatim>\<open>AddRequest\<close>, and \<open>new_GET\<close>, which is \<^verbatim>\<open>url.Parse\<close> followed by
  \<^verbatim>\<open>&colly.Request{URL: u, Method: "GET"}\<close>.
\<close>

datatype ('r, 'x) Storage = InMemory "'r mem" | External 'x

record ('r, 'x) collab =
  Marshal :: "'r option \<Rightarrow> (bytes \<times> error option) outcome"
  UnmarshalRequest :: "bytes \<Rightarrow> ('r option \<times> error option) outcome"
  Do :: "'r option \<Rightarrow> unit outcome"
  decode :: "bytes \<Rightarrow> error + 'r"
  new_GET :: "string \<Rightarrow> error + 'r"
  ext_Init :: "'x \<Rightarrow> error option outcome \<times> 'x"
  ext_AddRequest :: "bytes \<Rightarrow> 'x \<Rightarrow> error option outcome \<times> 'x"
  ext_GetRequest :: "'x \<Rightarrow> (bytes \<times> error option) outcome \<times> 'x"
  ext_QueueSize :: "'x \<Rightarrow> (int \<times> error option) outcome \<times> 'x"

text \<open>
  What a function of the coordinator does to its collaborators, in program order: the
  storage methods it calls and the notification it sends on \<^verbatim>\<open>q.wake\<close>. Every function
  of the coordinator returns its outcome, the coordinator it leaves and this list.
\<close>

datatype 'r action =
    Call_Init
  | Call_AddRequest bytes
  | Call_AddRequestPointer "'r option"
  | Call_GetRequest
  | Call_QueueSize
  | Send_wake

definition Storage_Init ::
  "('r, 'x) collab \<Rightarrow> ('r, 'x) Storage
    \<Rightarrow> error option outcome \<times> ('r, 'x) Storage \<times> 'r action list" where
  "Storage_Init env s =
     (case s of
        InMemory m \<Rightarrow> (case Mem_Init m of (out, m') \<Rightarrow> (out, InMemory m', [Call_Init]))
      | External x \<Rightarrow> (case ext_Init env x of (out, x') \<Rightarrow> (out, External x', [Call_Init])))"

definition Storage_AddRequest ::
  "('r, 'x) collab \<Rightarrow> bytes \<Rightarrow> ('r, 'x) Storage
    \<Rightarrow> error option outcome \<times> ('r, 'x) Storage \<times> 'r action list" where
  "Storage_AddRequest env b s =
     (case s of
        InMemory m \<Rightarrow>
          (case Mem_AddRequest (decode env) b m of
             (out, m') \<Rightarrow> (out, InMemory m', [Call_AddRequest b]))
      | External x \<Rightarrow>
          (case ext_AddRequest env b x of
             (out, x') \<Rightarrow> (out, External x', [Call_AddRequest b])))"

definition Storage_GetRequest ::
  "('r, 'x) collab \<Rightarrow> ('r, 'x) Storage
    \<Rightarrow> (bytes \<times> error option) outcome \<times> ('r, 'x) Storage \<times> 'r action list" where
  "Storage_GetRequest env s =
     (case s of
        InMemory m \<Rightarrow>
          (case Mem_GetRequest (Marshal env) m of
             (out, m') \<Rightarrow> (out, InMemory m', [Call_GetRequest]))
      | External x \<Rightarrow>
          (case ext_GetRequest env x of
             (out, x') \<Rightarrow> (out, External x', [Call_GetRequest])))"

definition Storage_QueueSize ::
  "('r, 'x) collab \<Rightarrow> ('r, 'x) Storage
    \<Rightarrow> (int \<times> error option) outcome \<times> ('r, 'x) Storage \<times> 'r action list" where
  "Storage_QueueSize env s =
     (case s of
        InMemory m \<Rightarrow>
          (case Mem_QueueSize m of (out, m') \<Rightarrow> (out, InMemory m', [Call_QueueSize]))
      | External x \<Rightarrow>
          (case ext_QueueSize env x of (out, x') \<Rightarrow> (out, External x', [Call_QueueSize])))"

subsection \<open>The coordinator\<close>

text \<open>
  \<^verbatim>\<open>type Queue struct { Threads int; storage Storage; wake chan struct{}; mut sync.Mutex }\<close>.
  The mutex guards the two places that read or write \<^verbatim>\<open>wake\<close>; both are single
  statements of the functions below, and it is free between any two of them.
\<close>

datatype chan = Chan

record ('r, 'x) Queue =
  Threads :: int
  storage :: "('r, 'x) Storage"
  wake :: "chan option"

definition New ::
  "('r, 'x) collab \<Rightarrow> int \<Rightarrow> ('r, 'x) Storage option
    \<Rightarrow> (('r, 'x) Queue option \<times> error option) outcome \<times> 'r action list" where
  "New env threads s =
     (let s1 = (case s of
                  None \<Rightarrow> InMemory (new_InMemoryQueueStorage 100000, [])
                | Some s' \<Rightarrow> s')
      in case Storage_Init env s1 of
           (Panic msg, s2, t) \<Rightarrow> (Panic msg, t)
         | (Return (Some err), s2, t) \<Rightarrow> (Return (None, Some err), t)
         | (Return None, s2, t) \<Rightarrow>
             (Return (Some \<lparr>Threads = threads, storage = s2, wake = None\<rparr>, None), t))"

definition storeRequest ::
  "('r, 'x) collab \<Rightarrow> ('r, 'x) Queue \<Rightarrow> 'r option
    \<Rightarrow> error option outcome \<times> ('r, 'x) Queue \<times> 'r action list" where
  "storeRequest env q r =
     (case storage q of
        InMemory m \<Rightarrow>
          (case Mem_AddRequestPointer r m of
             (out, m') \<Rightarrow> (out, q\<lparr>storage := InMemory m'\<rparr>, [Call_AddRequestPointer r]))
      | External x \<Rightarrow>
          (case Marshal env r of
             Panic msg \<Rightarrow> (Panic msg, q, [])
           | Return (d, Some err) \<Rightarrow> (Return (Some err), q, [])
           | Return (d, None) \<Rightarrow>
               (case Storage_AddRequest env d (storage q) of
                  (out, s', t) \<Rightarrow> (out, q\<lparr>storage := s'\<rparr>, t))))"

text \<open>
  \<^verbatim>\<open>AddRequest\<close>: the send on the unbuffered \<^verbatim>\<open>q.wake\<close> completes when the dispatch loop
  receives it; the function returns \<^verbatim>\<open>nil\<close> after that.
\<close>

definition Queue_AddRequest ::
  "('r, 'x) collab \<Rightarrow> ('r, 'x) Queue \<Rightarrow> 'r option
    \<Rightarrow> error option outcome \<times> ('r, 'x) Queue \<times> 'r action list" where
  "Queue_AddRequest env q r =
     (let waken = (wake q \<noteq> None)
      in if \<not> waken then storeRequest env q r
         else
           (case storeRequest env q r of
              (Panic msg, q', t) \<Rightarrow> (Panic msg, q', t)
            | (Return (Some err), q', t) \<Rightarrow> (Return (Some err), q', t)
            | (Return None, q', t) \<Rightarrow> (Return None, q', t @ [Send_wake])))"

definition AddURL ::
  "('r, 'x) collab \<Rightarrow> ('r, 'x) Queue \<Rightarrow> string
    \<Rightarrow> error option outcome \<times> ('r, 'x) Queue \<times> 'r action list" where
  "AddURL env q URL =
     (case new_GET env URL of
        Inl err \<Rightarrow> (Return (Some err), q, [])
      | Inr r \<Rightarrow> storeRequest env q (Some r))"

definition Queue_Size ::
  "('r, 'x) collab \<Rightarrow> ('r, 'x) Queue
    \<Rightarrow> (int \<times> error option) outcome \<times> ('r, 'x) Queue \<times> 'r action list" where
  "Queue_Size env q =
     (case Storage_QueueSize env (storage q) of
        (out, s', t) \<Rightarrow> (out, q\<lparr>storage := s'\<rparr>, t))"

definition IsEmpty ::
  "('r, 'x) collab \<Rightarrow> ('r, 'x) Queue \<Rightarrow> bool outcome \<times> ('r, 'x) Queue \<times> 'r action list" where
  "IsEmpty env q =
     (case Queue_Size env q of
        (Panic msg, q', t) \<Rightarrow> (Panic msg, q', t)
      | (Return (s, err), q', t) \<Rightarrow> (Return (s = 0), q', t))"

text \<open>
  \<^verbatim>\<open>loadRequest\<close>: the only live branch of its type switch is \<^verbatim>\<open>default\<close>, so the
  in-memory store is read through \<^verbatim>\<open>GetRequest\<close> too. The copy of the buffer is the
  buffer's value.
\<close>

definition loadRequest ::
  "('r, 'x) collab \<Rightarrow> ('r, 'x) Queue
    \<Rightarrow> ('r option \<times> error option) outcome \<times> ('r, 'x) Queue \<times> 'r action list" where
  "loadRequest env q =
     (case Storage_GetRequest env (storage q) of
        (Panic msg, s', t) \<Rightarrow> (Panic msg, q\<lparr>storage := s'\<rparr>, t)
      | (Return (buf, Some err), s', t) \<Rightarrow> (Return (None, Some err), q\<lparr>storage := s'\<rparr>, t)
      | (Return (buf, None), s', t) \<Rightarrow> (UnmarshalRequest env buf, q\<lparr>storage := s'\<rparr>, t))"

subsection \<open>Run: the dispatch loop, the workers and the producers\<close>

text \<open>
  \<^verbatim>\<open>Run\<close> starts \<^verbatim>\<open>Threads\<close> workers and the loop and waits on \<^verbatim>\<open>errc\<close>. The goroutines
  are a transition system: a state of the whole program and one transition for each
  thing a goroutine can do next. A schedule is a list of transitions; a transition that
  cannot happen in a state (a receive with no sender, a step of a goroutine that is
  blocked) is not enabled there, which \<open>step\<close> answers with \<open>None\<close>.

  The loop is at \<open>Top\<close> before \<^verbatim>\<open>q.storage.QueueSize()\<close>, at \<open>Load\<close> before
  \<^verbatim>\<open>q.loadRequest(c)\<close>, and at \<open>Select sent req\<close> inside the \<^verbatim>\<open>select\<close>; it has
  \<open>Exited\<close> after its \<^verbatim>\<open>break\<close>. A worker is \<open>Idle\<close> at \<^verbatim>\<open>range requestc\<close>,
  \<open>Running req\<close> before \<^verbatim>\<open>req.Do()\<close> returns, and \<open>Reporting\<close> at
  \<^verbatim>\<open>complete <- struct{}{}\<close>.
\<close>

datatype 'r loop_pc = NotStarted | Top | Load | Select "chan option" "'r option" | Exited

datatype 'r worker = Idle | Running "'r option" | Reporting

text \<open>
  \<open>errc\<close> is the content of the buffered channel (capacity 1), \<open>result\<close> what \<^verbatim>\<open>Run\<close>
  has returned, \<open>wakers\<close> the number of \<^verbatim>\<open>AddRequest\<close> calls blocked in their send on
  \<^verbatim>\<open>q.wake\<close>, \<open>crashed\<close> the panic that ended the program. Five fields record history
  and are read by no transition: \<open>stored\<close>, the requests that \<^verbatim>\<open>AddRequest\<close> and
  \<^verbatim>\<open>AddURL\<close> stored since \<^verbatim>\<open>Run\<close> started; \<open>late\<close>, those among them stored after the
  loop's last size query (the loop has exited); \<open>loaded\<close>, the requests \<^verbatim>\<open>loadRequest\<close>
  returned with a \<^verbatim>\<open>nil\<close> error; \<open>handed\<close>, the requests workers received;
  \<open>executed\<close>, the requests whose \<^verbatim>\<open>Do\<close> returned.
\<close>

record ('r, 'x) system =
  sq :: "('r, 'x) Queue"
  pc :: "'r loop_pc"
  active :: int
  workers :: "'r worker list"
  errc :: "error option option"
  result :: "error option option"
  wakers :: nat
  crashed :: "string option"
  stored :: "'r option list"
  late :: "'r option list"
  loaded :: "'r option list"
  handed :: "'r option list"
  executed :: "'r option list"

datatype 'r transition =
    LoopStep
  | Handoff nat
  | WakeRecv
  | CompleteRecv nat
  | Exec nat
  | Enqueue "'r option"
  | StoreOnly "'r option"
  | EnqueueURL string
  | AskSize
  | RunReturn

text \<open>
  One statement of \<^verbatim>\<open>Queue.loop\<close> outside the \<^verbatim>\<open>select\<close>. The send on \<^verbatim>\<open>errc\<close> and the
  \<^verbatim>\<open>break\<close> after it are one step: the channel is buffered and the loop does nothing
  after the \<^verbatim>\<open>break\<close>.
\<close>

definition loop_step :: "('r, 'x) collab \<Rightarrow> ('r, 'x) system \<Rightarrow> ('r, 'x) system option" where
  "loop_step env c =
     (case pc c of
        Top \<Rightarrow>
          (case Queue_Size env (sq c) of
             (Panic msg, q', t) \<Rightarrow> Some (c\<lparr>sq := q', crashed := Some msg\<rparr>)
           | (Return (sz, Some err), q', t) \<Rightarrow>
               Some (c\<lparr>sq := q', errc := Some (Some err), pc := Exited\<rparr>)
           | (Return (sz, None), q', t) \<Rightarrow>
               if sz = 0 \<and> active c = 0 then
                 Some (c\<lparr>sq := q', errc := Some None, pc := Exited\<rparr>)
               else if sz > 0 then Some (c\<lparr>sq := q', pc := Load\<rparr>)
               else Some (c\<lparr>sq := q', pc := Select None None\<rparr>))
      | Load \<Rightarrow>
          (case loadRequest env (sq c) of
             (Panic msg, q', t) \<Rightarrow> Some (c\<lparr>sq := q', crashed := Some msg\<rparr>)
           | (Return (req, Some err), q', t) \<Rightarrow> Some (c\<lparr>sq := q', pc := Top\<rparr>)
           | (Return (req, None), q', t) \<Rightarrow>
               Some (c\<lparr>sq := q', loaded := loaded c @ [req], pc := Select (Some Chan) req\<rparr>))
      | _ \<Rightarrow> None)"

text \<open>
  What a producer leaves behind: \<open>res\<close> is what its call on the coordinator returned,
  \<open>rs\<close> the request it was storing. A producer that sends on \<^verbatim>\<open>q.wake\<close> stays blocked
  in that send until the loop receives.
\<close>

definition produced ::
  "('r, 'x) system \<Rightarrow> 'r option list
    \<Rightarrow> error option outcome \<times> ('r, 'x) Queue \<times> 'r action list \<Rightarrow> ('r, 'x) system" where
  "produced c rs res =
     (case res of
        (Panic msg, q', t) \<Rightarrow> c\<lparr>sq := q', crashed := Some msg\<rparr>
      | (Return err, q', t) \<Rightarrow>
          c\<lparr>sq := q', wakers := wakers c + count_list t Send_wake,
            stored := stored c @ (if err = None then rs else []),
            late := late c @ (if err = None \<and> pc c = Exited then rs else [])\<rparr>)"

text \<open>
  The transitions. \<open>Handoff i\<close>: worker \<open>i\<close> receives what the loop offers
  (\<^verbatim>\<open>case sent <- req\<close>, never enabled when \<^verbatim>\<open>sent\<close> is \<^verbatim>\<open>nil\<close>). \<open>WakeRecv\<close>: the loop
  receives a blocked producer's notification. \<open>CompleteRecv i\<close>: the loop receives
  worker \<open>i\<close>'s completion. \<open>Exec i\<close>: \<^verbatim>\<open>req.Do()\<close> returns in worker \<open>i\<close>.
  \<open>Enqueue r\<close>: some goroutine calls \<^verbatim>\<open>q.AddRequest(r)\<close>, which runs up to its send on
  \<^verbatim>\<open>q.wake\<close>. \<open>StoreOnly r\<close>: a call of \<^verbatim>\<open>q.AddRequest(r)\<close> that read \<^verbatim>\<open>q.wake\<close> before
  \<^verbatim>\<open>Run\<close> made the channel reaches \<^verbatim>\<open>q.storeRequest(r)\<close> now and sends nothing.
  \<open>EnqueueURL u\<close>: some goroutine calls \<^verbatim>\<open>q.AddURL(u)\<close>, which never sends.
  \<open>AskSize\<close>: some goroutine calls \<^verbatim>\<open>q.Size()\<close> (or \<^verbatim>\<open>q.IsEmpty()\<close>, which is that
  call). \<open>RunReturn\<close>: \<^verbatim>\<open>Run\<close> receives from \<^verbatim>\<open>errc\<close> and returns; this is a step of
  the goroutine that called \<^verbatim>\<open>Run\<close>, so other goroutines can run between the loop's
  send and it. A panic in any goroutine ends the program: nothing is enabled
  afterwards.
\<close>

fun step :: "('r, 'x) collab \<Rightarrow> ('r, 'x) system \<Rightarrow> 'r transition \<Rightarrow> ('r, 'x) system option" where
  "step env c LoopStep = (if crashed c = None then loop_step env c else None)"
| "step env c (Handoff i) =
     (case pc c of
        Select (Some ch) req \<Rightarrow>
          if crashed c = None \<and> i < length (workers c) \<and> workers c ! i = Idle then
            Some (c\<lparr>workers := (workers c)[i := Running req], handed := handed c @ [req],
                    active := wrap64 (active c + 1), pc := Top\<rparr>)
          else None
      | _ \<Rightarrow> None)"
| "step env c WakeRecv =
     (case pc c of
        Select sent req \<Rightarrow>
          if crashed c = None \<and> 0 < wakers c then
            Some (c\<lparr>wakers := wakers c - 1,
                    pc := (if sent = None then Top else Select sent req)\<rparr>)
          else None
      | _ \<Rightarrow> None)"
| "step env c (CompleteRecv i) =
     (case pc c of
        Select sent req \<Rightarrow>
          if crashed c = None \<and> i < length (workers c) \<and> workers c ! i = Reporting then
            Some (c\<lparr>workers := (workers c)[i := Idle], active := wrap64 (active c - 1),
                    pc := (if sent = None \<and> wrap64 (active c - 1) = 0 then Top
                           else Select sent req)\<rparr>)
          else None
      | _ \<Rightarrow> None)"
| "step env c (Exec i) =
     (if crashed c = None \<and> i < length (workers c) then
        (case workers c ! i of
           Running req \<Rightarrow>
             (case Do env req of
                Panic msg \<Rightarrow> Some (c\<lparr>crashed := Some msg\<rparr>)
              | Return u \<Rightarrow>
                  Some (c\<lparr>workers := (workers c)[i := Reporting],
                          executed := executed c @ [req]\<rparr>))
         | _ \<Rightarrow> None)
      else None)"
| "step env c (Enqueue r) =
     (if crashed c = None then Some (produced c [r] (Queue_AddRequest env (sq c) r)) else None)"
| "step env c (StoreOnly r) =
     (if crashed c = None then Some (produced c [r] (storeRequest env (sq c) r)) else None)"
| "step env c (EnqueueURL u) =
     (if crashed c = None then
        Some (produced c (case new_GET env u of Inl err \<Rightarrow> [] | Inr r \<Rightarrow> [Some r])
                (AddURL env (sq c) u))
      else None)"
| "step env c AskSize =
     (if crashed c = None then
        (case Queue_Size env (sq c) of
           (Panic msg, q', t) \<Rightarrow> Some (c\<lparr>sq := q', crashed := Some msg\<rparr>)
         | (Return v, q', t) \<Rightarrow> Some (c\<lparr>sq := q'\<rparr>))
      else None)"
| "step env c RunReturn =
     (if crashed c = None \<and> result c = None then
        (case errc c of
           None \<Rightarrow> None
         | Some err \<Rightarrow> Some (c\<lparr>errc := None, result := Some err\<rparr>))
      else None)"

text \<open>The state a schedule leads to; \<open>None\<close> when it asks for a transition that is not enabled.\<close>

fun exec ::
  "('r, 'x) collab \<Rightarrow> ('r, 'x) system \<Rightarrow> 'r transition list \<Rightarrow> ('r, 'x) system option" where
  "exec env c [] = Some c"
| "exec env c (l # ls) = (case step env c l of None \<Rightarrow> None | Some c' \<Rightarrow> exec env c' ls)"

text \<open>
  \<^verbatim>\<open>return <-errc\<close>: the call of \<^verbatim>\<open>Run\<close> is over, with what it received, in the state
  in which it received (the transition \<open>RunReturn\<close>); the rest of the schedule is what
  the program does after the call. A panic in a goroutine ends the program, and with
  it \<^verbatim>\<open>Run\<close>, in a panic. The result is \<open>None\<close> when the schedule ends, or asks for a
  transition that is not enabled, before either: \<^verbatim>\<open>Run\<close> has not returned.
\<close>

fun Run_wait ::
  "('r, 'x) collab \<Rightarrow> ('r, 'x) system \<Rightarrow> 'r transition list
    \<Rightarrow> (error option outcome \<times> ('r, 'x) system) option" where
  "Run_wait env c [] =
     (case crashed c of
        Some msg \<Rightarrow> Some (Panic msg, c)
      | None \<Rightarrow> (case result c of Some err \<Rightarrow> Some (Return err, c) | None \<Rightarrow> None))"
| "Run_wait env c (l # ls) =
     (case crashed c of
        Some msg \<Rightarrow> Some (Panic msg, c)
      | None \<Rightarrow>
          (case result c of
             Some err \<Rightarrow> Some (Return err, c)
           | None \<Rightarrow>
               (case step env c l of
                  None \<Rightarrow> None
                | Some c' \<Rightarrow> Run_wait env c' ls)))"

text \<open>The program around a coordinator whose \<^verbatim>\<open>Run\<close> has started no goroutine.\<close>

definition not_running :: "('r, 'x) Queue \<Rightarrow> ('r, 'x) system" where
  "not_running q =
     \<lparr>sq = q, pc = NotStarted, active = 0, workers = [], errc = None, result = None,
      wakers = 0, crashed = None, stored = [], late = [], loaded = [], handed = [],
      executed = []\<rparr>"

text \<open>
  The program once \<^verbatim>\<open>Run\<close> has made \<^verbatim>\<open>q.wake\<close> and started its goroutines: \<^verbatim>\<open>Threads\<close>
  idle workers (none when \<^verbatim>\<open>Threads\<close> is not positive) and the loop at its top.
\<close>

definition started :: "('r, 'x) Queue \<Rightarrow> ('r, 'x) system" where
  "started q =
     (not_running (q\<lparr>wake := Some Chan\<rparr>))
       \<lparr>workers := replicate (nat (Threads q)) Idle, pc := Top\<rparr>"

definition Run ::
  "('r, 'x) collab \<Rightarrow> ('r, 'x) Queue \<Rightarrow> 'r transition list
    \<Rightarrow> (error option outcome \<times> ('r, 'x) system) option" where
  "Run env q sched =
     (if wake q \<noteq> None then Some (Panic ''cannot call duplicate Queue.Run'', not_running q)
      else Run_wait env (started q) sched)"


subsection \<open>Sample collaborators\<close>

text \<open>
  Concrete collaborators for evaluating the definitions: a request is a number, its
  serialisation the one byte of that number. Request \<open>0\<close> cannot be serialised (its
  body cannot be read), byte \<open>255\<close> does not decode, and \<^verbatim>\<open>Marshal\<close> and \<^verbatim>\<open>Do\<close> panic
  on a \<^verbatim>\<open>nil\<close> request. The external store is a list of buffers whose \<^verbatim>\<open>Init\<close> refuses
  an empty buffer.
\<close>

definition sample_marshal :: "nat option \<Rightarrow> (bytes \<times> error option) outcome" where
  "sample_marshal r =
     (case r of
        None \<Rightarrow> Panic nil_dereference
      | Some n \<Rightarrow>
          if n = 0 then Return ([], Some (ErrOther ''read error''))
          else Return ([word_of_nat n], None))"

definition sample_decode :: "bytes \<Rightarrow> error + nat" where
  "sample_decode b =
     (case b of
        [w] \<Rightarrow> if w = 255 then Inl (ErrOther ''missing protocol scheme'') else Inr (unat w)
      | _ \<Rightarrow> Inl (ErrOther ''unexpected end of JSON input''))"

definition sample_unmarshal :: "bytes \<Rightarrow> (nat option \<times> error option) outcome" where
  "sample_unmarshal b =
     (case sample_decode b of
        Inl err \<Rightarrow> Return (None, Some err)
      | Inr n \<Rightarrow> Return (Some n, None))"

definition sample_Do :: "nat option \<Rightarrow> unit outcome" where
  "sample_Do r = (case r of None \<Rightarrow> Panic nil_dereference | Some n \<Rightarrow> Return ())"

definition sample_env :: "(nat, bytes list) collab" where
  "sample_env =
     \<lparr>Marshal = sample_marshal,
      UnmarshalRequest = sample_unmarshal,
      Do = sample_Do,
      decode = sample_decode,
      new_GET = (\<lambda>u. if u = [] then Inl (ErrOther ''empty url'') else Inr (length u)),
      ext_Init = (\<lambda>x. (if [] \<in> set x then Return (Some (ErrOther ''corrupt queue''))
                         else Return None, x)),
      ext_AddRequest = (\<lambda>b x. (Return None, x @ [b])),
      ext_GetRequest = (\<lambda>x. case x of
                           [] \<Rightarrow> (Return ([], Some (ErrOther ''queue is empty'')), [])
                         | b # bs \<Rightarrow> (Return (b, None), bs)),
      ext_QueueSize = (\<lambda>x. (Return (int (length x), None), x))\<rparr>"


definition sample_queue :: "(nat, bytes list) Queue" where
  "sample_queue =
     \<lparr>Threads = 2,
      storage = InMemory (\<lparr>MaxSize = 100000, lock = Some RWMutex, size_q = 0, first = None,
                          last_q = None\<rparr>, []),
      wake = None\<rparr>"


definition two_items :: "(nat, bytes list) Queue" where
  "two_items =
     \<lparr>Threads = 2,
      storage = InMemory (\<lparr>MaxSize = 100000, lock = Some RWMutex, size_q = 2, first = Some 0,
                          last_q = Some 1\<rparr>,
                         [\<lparr>Request = Some 7, Next = Some 1\<rparr>, \<lparr>Request = Some 8, Next = None\<rparr>]),
      wake = None\<rparr>"


subsection \<open>Bookkeeping for the proofs about Run\<close>



definition busy :: "'r worker list \<Rightarrow> nat" where
  "busy ws = length (filter (\<lambda>w. w \<noteq> Idle) ws)"




definition exit_inv :: "('r, 'x) system \<Rightarrow> bool" where
  "exit_inv c =
     ((errc c = Some None \<or> result c = Some None \<longrightarrow>
         pc c = Exited \<and> active c = 0 \<and>
         (late c = [] \<longrightarrow>
            (\<forall>m. storage (sq c) = InMemory m \<longrightarrow> size_q (fst m) = 0 \<and> lock (fst m) \<noteq> None))) \<and>
      (pc c \<noteq> Exited \<longrightarrow> late c = []))"


subsection \<open>Collaborators and producers that let a run finish\<close>










section \<open>Properties of the in-memory storage\<close>

subsection \<open>Chains of nodes\<close>

lemma chain_length: "chain h p n = Some as \<Longrightarrow> length as = n"
  by (induction n arbitrary: p as) (auto split: if_splits option.splits)

lemma chain_bound: "chain h p n = Some as \<Longrightarrow> a \<in> set as \<Longrightarrow> a < length h"
  by (induction n arbitrary: p as) (auto split: if_splits option.splits)

lemma chain_alloc: "chain h p n = Some as \<Longrightarrow> chain (h @ [x]) p n = Some as"
  by (induction n arbitrary: p as) (auto split: if_splits option.splits simp: nth_append)

lemma chain_link:
  "chain h p n = Some as \<Longrightarrow> distinct as \<Longrightarrow> as \<noteq> [] \<Longrightarrow> i < length h \<Longrightarrow> i \<notin> set as
   \<Longrightarrow> Next (h ! i) = None
   \<Longrightarrow> chain (h[last as := (h ! last as)\<lparr>Next := Some i\<rparr>]) p (Suc n) = Some (as @ [i])"
proof (induction n arbitrary: p as)
  case 0
  then show ?case by (auto split: if_splits)
next
  case (Suc n)
  from Suc.prems(1) obtain a bs where p: "p = Some a" and a: "a < length h"
    and bs: "chain h (Next (h ! a)) n = Some bs" and as: "as = a # bs"
    by (auto split: if_splits option.splits)
  show ?case
  proof (cases "bs = []")
    case True
    with bs have n: "n = 0" using chain_length by fastforce
    with bs have nx: "Next (h ! a) = None" by (auto split: if_splits)
    from Suc.prems as True have ia: "i \<noteq> a" by auto
    show ?thesis using p a as True n nx ia Suc.prems(4,6) by simp
  next
    case False
    with Suc.prems as have la: "last as = last bs" "last bs \<noteq> a" by auto
    have "chain (h[last bs := (h ! last bs)\<lparr>Next := Some i\<rparr>]) (Next (h ! a)) (Suc n) = Some (bs @ [i])"
      using Suc.IH[OF bs] Suc.prems as False by auto
    then show ?thesis using p a as la by simp
  qed
qed

lemma wrap64_id: "- max_int64 - 1 \<le> n \<Longrightarrow> n \<le> max_int64 \<Longrightarrow> wrap64 n = n"
  by (simp add: wrap64_def max_int64_def)

lemma chain_None: "chain h None n = Some as \<Longrightarrow> n = 0 \<and> as = []"
  by (cases n) auto

lemma chain_Some: "chain h (Some f) n = Some as \<Longrightarrow>
  \<exists>k bs. n = Suc k \<and> f < length h \<and> as = f # bs \<and> chain h (Next (h ! f)) k = Some bs"
  by (cases n) (auto split: if_splits)

subsection \<open>Append and pop on a well-formed store\<close>

text \<open>
  An append that is let in links one node at the tail; a pop from a store that holds
  something unlinks the head and returns its request. \<open>contents\<close> changes as a
  functional queue does.
\<close>

lemma AddRequestPointer_full:
  assumes "lock (fst m) \<noteq> None" "0 < MaxSize (fst m)" "MaxSize (fst m) \<le> size_q (fst m)"
  shows "Mem_AddRequestPointer r m = (Return (Some ErrQueueFull), m)"
  using assms by (cases m) (simp add: Mem_AddRequestPointer_def)

lemma AddRequestPointer_ok:
  assumes inv: "store_inv m" and lk: "lock (fst m) \<noteq> None"
    and room: "\<not> (0 < MaxSize (fst m) \<and> MaxSize (fst m) \<le> size_q (fst m))"
    and small: "size_q (fst m) < max_int64"
  shows "\<exists>m'. Mem_AddRequestPointer r m = (Return None, m') \<and> store_inv m' \<and>
           contents m' = contents m @ [r] \<and> size_q (fst m') = size_q (fst m) + 1 \<and>
           MaxSize (fst m') = MaxSize (fst m) \<and> lock (fst m') = lock (fst m)"
proof -
  obtain q h where m: "m = (q, h)" by (cases m)
  from inv m obtain as where ch: "chain h (first q) (nat (size_q q)) = Some as"
    and d: "distinct as" and la: "as = [] \<or> last_q q = Some (last as)"
    and sz: "0 \<le> size_q q" "size_q q \<le> max_int64" and mx: "MaxSize q \<le> max_int64"
    by (auto simp: store_inv_def split: option.splits)
  from sz small m have w: "wrap64 (size_q q + 1) = size_q q + 1"
    by (intro wrap64_id) (auto simp: max_int64_def)
  have nat_suc: "nat (size_q q + 1) = Suc (nat (size_q q))" using sz by simp
  let ?i = "length h"
  let ?h1 = "h @ [\<lparr>Request = r, Next = None\<rparr>]"
  show ?thesis
  proof (cases "first q")
    case None
    with ch have e: "nat (size_q q) = 0" "as = []" using chain_None by fastforce+
    with sz have s0: "size_q q = 0" by simp
    show ?thesis using m lk room None s0 e w ch
      by (simp add: Mem_AddRequestPointer_def store_inv_def contents_def Let_def max_int64_def mx[unfolded max_int64_def])
  next
    case (Some f)
    with ch obtain k bs where k: "nat (size_q q) = Suc k" and as: "as = f # bs"
      using chain_Some by fastforce
    with la have l: "last_q q = Some (last as)" and ne: "as \<noteq> []" by auto
    have lb: "last as < length h" using chain_bound[OF ch] ne by simp
    have fresh: "?i \<notin> set as" using chain_bound[OF ch] by auto
    have c1: "chain ?h1 (first q) (nat (size_q q)) = Some as" by (rule chain_alloc[OF ch])
    have c2: "chain (?h1[last as := (?h1 ! last as)\<lparr>Next := Some ?i\<rparr>]) (first q) (Suc (nat (size_q q)))
                = Some (as @ [?i])"
      by (rule chain_link[OF c1 d ne]) (use fresh in auto)
    have req: "map (\<lambda>a. Request ((?h1[last as := (?h1 ! last as)\<lparr>Next := Some ?i\<rparr>]) ! a)) as
                 = map (\<lambda>a. Request (h ! a)) as"
    proof (rule map_cong[OF refl])
      fix a assume "a \<in> set as"
      then have "a < length h" using chain_bound[OF ch] by simp
      then show "Request ((?h1[last as := (?h1 ! last as)\<lparr>Next := Some ?i\<rparr>]) ! a) = Request (h ! a)"
        by (cases "a = last as") (simp_all add: nth_append)
    qed
    have reqi: "Request ((?h1[last as := (?h1 ! last as)\<lparr>Next := Some ?i\<rparr>]) ! ?i) = r"
      using lb by simp
    show ?thesis using m lk room Some l lb w nat_suc c2 d fresh req reqi ch sz small mx
      by (simp add: Mem_AddRequestPointer_def store_inv_def contents_def Let_def)
  qed
qed

lemma GetRequestPointer_empty:
  "lock (fst m) \<noteq> None \<Longrightarrow> size_q (fst m) = 0 \<Longrightarrow>
   Mem_GetRequestPointer m = (Return (None, None), m)"
  by (cases m) (simp add: Mem_GetRequestPointer_def)

lemma GetRequestPointer_ok:
  assumes inv: "store_inv m" and lk: "lock (fst m) \<noteq> None" and c: "contents m = x # xs"
  shows "\<exists>m'. Mem_GetRequestPointer m = (Return (x, None), m') \<and> store_inv m' \<and>
           contents m' = xs \<and> size_q (fst m') = size_q (fst m) - 1 \<and>
           MaxSize (fst m') = MaxSize (fst m) \<and> lock (fst m') = lock (fst m) \<and>
           last_q (fst m') = last_q (fst m) \<and> snd m' = snd m"
proof -
  obtain q h where m: "m = (q, h)" by (cases m)
  from inv m obtain as where ch: "chain h (first q) (nat (size_q q)) = Some as"
    and d: "distinct as" and la: "as = [] \<or> last_q q = Some (last as)"
    and sz: "0 \<le> size_q q" "size_q q \<le> max_int64" and mx: "MaxSize q \<le> max_int64"
    by (auto simp: store_inv_def split: option.splits)
  from c m ch obtain f bs where as: "as = f # bs" and x: "x = Request (h ! f)"
    and xs: "xs = map (\<lambda>a. Request (h ! a)) bs"
    by (auto simp: contents_def)
  from ch as have len: "nat (size_q q) = Suc (length bs)" using chain_length by fastforce
  then have pos: "size_q q \<noteq> 0" "0 < size_q q" by auto
  from ch as len obtain p where p: "first q = Some p"
    by (cases "first q") auto
  from ch p as len have f: "p = f" "f < length h" and tl: "chain h (Next (h ! f)) (length bs) = Some bs"
    by (auto split: if_splits)
  have w: "wrap64 (size_q q - 1) = size_q q - 1"
    using sz pos by (intro wrap64_id) (auto simp: max_int64_def)
  have n1: "nat (size_q q - 1) = length bs" using len by simp
  have lst: "bs \<noteq> [] \<Longrightarrow> last_q q = Some (last bs)" using la as by auto
  show ?thesis using m lk pos p f tl w n1 d as x xs sz mx lst
    by (auto simp add: Mem_GetRequestPointer_def store_inv_def contents_def)
qed

subsection \<open>Every method keeps a store well formed\<close>

lemma store_inv_new:
  "n \<le> max_int64 \<Longrightarrow> store_inv (new_InMemoryQueueStorage n, h)"
  by (simp add: store_inv_def new_InMemoryQueueStorage_def max_int64_def)

lemma Init_inv: "store_inv m \<Longrightarrow> store_inv (snd (Mem_Init m)) \<and> size_q (fst (snd (Mem_Init m))) = size_q (fst m)"
  by (cases m) (auto simp: store_inv_def Mem_Init_def split: option.splits)

lemma AddRequestPointer_inv:
  assumes "store_inv m" "size_q (fst m) < max_int64"
  shows "store_inv (snd (Mem_AddRequestPointer r m)) \<and>
         size_q (fst (snd (Mem_AddRequestPointer r m))) \<le> size_q (fst m) + 1"
proof (cases "lock (fst m) = None \<or> (0 < MaxSize (fst m) \<and> MaxSize (fst m) \<le> size_q (fst m))")
  case True
  then have "snd (Mem_AddRequestPointer r m) = m"
    by (cases m) (auto simp: Mem_AddRequestPointer_def)
  with assms show ?thesis by simp
next
  case False
  then obtain m' where "Mem_AddRequestPointer r m = (Return None, m')" "store_inv m'"
    "size_q (fst m') = size_q (fst m) + 1"
    using AddRequestPointer_ok[OF assms(1) _ _ assms(2), of r] by auto
  then show ?thesis by simp
qed

lemma contents_Nil_iff:
  "store_inv m \<Longrightarrow> contents m = [] \<longleftrightarrow> size_q (fst m) = 0"
  by (cases m) (auto simp: store_inv_def contents_def split: option.splits dest: chain_length)


lemma GetRequestPointer_inv:
  assumes "store_inv m"
  shows "store_inv (snd (Mem_GetRequestPointer m)) \<and>
         size_q (fst (snd (Mem_GetRequestPointer m))) \<le> size_q (fst m)"
proof (cases "lock (fst m) = None \<or> size_q (fst m) = 0")
  case True
  then have "snd (Mem_GetRequestPointer m) = m"
    by (cases m) (auto simp: Mem_GetRequestPointer_def)
  with assms show ?thesis by simp
next
  case False
  with assms obtain x xs where "contents m = x # xs"
    using contents_Nil_iff[OF assms] by (cases "contents m") auto
  then obtain m' where "Mem_GetRequestPointer m = (Return (x, None), m')" "store_inv m'"
    "size_q (fst m') = size_q (fst m) - 1"
    using GetRequestPointer_ok[OF assms, of x xs] False by auto
  then show ?thesis by simp
qed

lemma GetRequest_state: "snd (Mem_GetRequest marshal m) = snd (Mem_GetRequestPointer m)"
  by (auto simp: Mem_GetRequest_def split: prod.splits outcome.splits)

lemma AddRequest_state:
  "snd (Mem_AddRequest dec b m) = m \<or>
   (\<exists>req. snd (Mem_AddRequest dec b m) = snd (Mem_AddRequestPointer (Some req) m))"
  by (auto simp: Mem_AddRequest_def split: sum.splits)

lemma QueueSize_state: "snd (Mem_QueueSize m) = m"
  by (cases m) (simp add: Mem_QueueSize_def)

lemma call_state_inv:
  assumes "store_inv m" "size_q (fst m) < max_int64"
  shows "store_inv (call_state dec marshal c m) \<and>
         size_q (fst (call_state dec marshal c m)) \<le> size_q (fst m) + 1"
proof (cases c)
  case CallInit
  then show ?thesis using Init_inv[OF assms(1)] by simp
next
  case (CallAddRequest b)
  then show ?thesis
    using AddRequest_state[of dec b m] AddRequestPointer_inv[OF assms] assms(1) by auto
next
  case (CallAddRequestPointer r)
  then show ?thesis using AddRequestPointer_inv[OF assms] by simp
next
  case CallGetRequest
  then show ?thesis using GetRequestPointer_inv[OF assms(1)] by (simp add: GetRequest_state)
next
  case CallGetRequestPointer
  then show ?thesis using GetRequestPointer_inv[OF assms(1)] by simp
next
  case CallQueueSize
  then show ?thesis using assms(1) by (simp add: QueueSize_state)
qed

lemma calls_state_inv:
  "store_inv m \<Longrightarrow> size_q (fst m) + int (length cs) \<le> max_int64
   \<Longrightarrow> store_inv (calls_state dec marshal cs m)"
proof (induction cs arbitrary: m)
  case Nil
  then show ?case by simp
next
  case (Cons c cs)
  from Cons.prems have small: "size_q (fst m) < max_int64" by simp
  note step = call_state_inv[OF Cons.prems(1) small, of dec marshal c]
  show ?case using Cons.IH[of "call_state dec marshal c m"] step Cons.prems(2) by simp
qed

lemma store_inv_first:
  "store_inv m \<Longrightarrow> (size_q (fst m) = 0 \<longleftrightarrow> first (fst m) = None)"
  by (cases m; cases "first (fst m)")
     (auto simp: store_inv_def split: option.splits dest: chain_None chain_Some)

lemma store_inv_last:
  "store_inv m \<Longrightarrow> 0 < size_q (fst m) \<Longrightarrow> last_q (fst m) \<noteq> None"
  by (cases m) (auto simp: store_inv_def split: option.splits dest: chain_length)

subsection \<open>The claims about the in-memory storage\<close>

text \<open>
  Claim C3, as amended. \<^verbatim>\<open>size == 0\<close> exactly when \<^verbatim>\<open>first == nil\<close>: this holds in a
  store as \<^verbatim>\<open>&InMemoryQueueStorage{MaxSize: n}\<close> builds it and after any sequence of
  calls of its six methods (\<^verbatim>\<open>Init\<close> among them), as long as the sequence is short
  enough for the counter not to wrap. While \<^verbatim>\<open>size > 0\<close>, \<^verbatim>\<open>last\<close> is not \<^verbatim>\<open>nil\<close>. A pop
  never writes \<^verbatim>\<open>last\<close>, so the equivalence does not extend to it.
\<close>

theorem size_zero_iff_first_nil:
  assumes "n \<le> max_int64" and "int (length cs) \<le> max_int64"
  shows "(size_q (fst (calls_state dec marshal cs (new_InMemoryQueueStorage n, h))) = 0
            \<longleftrightarrow> first (fst (calls_state dec marshal cs (new_InMemoryQueueStorage n, h))) = None) \<and>
         (0 < size_q (fst (calls_state dec marshal cs (new_InMemoryQueueStorage n, h)))
            \<longrightarrow> last_q (fst (calls_state dec marshal cs (new_InMemoryQueueStorage n, h))) \<noteq> None) \<and>
         last_q (fst (snd (Mem_GetRequestPointer m))) = last_q (fst m)"
proof -
  have "size_q (fst (new_InMemoryQueueStorage n, h)) = 0"
    by (simp add: new_InMemoryQueueStorage_def)
  moreover have "store_inv (new_InMemoryQueueStorage n, h)"
    by (rule store_inv_new[OF assms(1)])
  ultimately have inv: "store_inv (calls_state dec marshal cs (new_InMemoryQueueStorage n, h))"
    using calls_state_inv[where cs = cs and dec = dec and marshal = marshal] assms(2) by simp
  have "last_q (fst (snd (Mem_GetRequestPointer m))) = last_q (fst m)"
    by (cases m) (auto simp: Mem_GetRequestPointer_def split: option.splits)
  then show ?thesis using store_inv_first[OF inv] store_inv_last[OF inv] by blast
qed

theorem size_zero_iff_first_nil_witness:
  "(100000::int) \<le> max_int64 \<and>
   int (length [CallInit, CallAddRequestPointer (Some (1::nat)), CallAddRequest [2],
                CallGetRequestPointer, CallQueueSize, CallGetRequest]) \<le> max_int64 \<and>
   size_q (fst (calls_state sample_decode sample_marshal
      [CallInit, CallAddRequestPointer (Some 1), CallAddRequest [2], CallGetRequestPointer,
       CallQueueSize, CallGetRequest] (new_InMemoryQueueStorage 100000, []))) = 0 \<and>
   first (fst (calls_state sample_decode sample_marshal
      [CallInit, CallAddRequestPointer (Some 1), CallAddRequest [2], CallGetRequestPointer,
       CallQueueSize, CallGetRequest] (new_InMemoryQueueStorage 100000, []))) = None \<and>
   last_q (fst (calls_state sample_decode sample_marshal
      [CallInit, CallAddRequestPointer (Some 1), CallAddRequest [2], CallGetRequestPointer,
       CallQueueSize, CallGetRequest] (new_InMemoryQueueStorage 100000, []))) = Some 1 \<and>
   int (length [CallInit, CallAddRequestPointer (Some (1::nat)), CallAddRequest [2],
                CallGetRequestPointer]) \<le> max_int64 \<and>
   size_q (fst (calls_state sample_decode sample_marshal
      [CallInit, CallAddRequestPointer (Some 1), CallAddRequest [2], CallGetRequestPointer]
      (new_InMemoryQueueStorage 100000, []))) = 1 \<and>
   first (fst (calls_state sample_decode sample_marshal
      [CallInit, CallAddRequestPointer (Some 1), CallAddRequest [2], CallGetRequestPointer]
      (new_InMemoryQueueStorage 100000, []))) = Some 1 \<and>
   last_q (fst (calls_state sample_decode sample_marshal
      [CallInit, CallAddRequestPointer (Some 1), CallAddRequest [2], CallGetRequestPointer]
      (new_InMemoryQueueStorage 100000, []))) = Some 1"
  using size_zero_iff_first_nil
    [where n = 100000 and dec = sample_decode and marshal = sample_marshal and h = "[]"
       and cs = "[CallInit, CallAddRequestPointer (Some (1::nat)), CallAddRequest [2],
                  CallGetRequestPointer, CallQueueSize, CallGetRequest]"
       and m = "(new_InMemoryQueueStorage 100000, [])"]
    size_zero_iff_first_nil
    [where n = 100000 and dec = sample_decode and marshal = sample_marshal and h = "[]"
       and cs = "[CallInit, CallAddRequestPointer (Some (1::nat)), CallAddRequest [2],
                  CallGetRequestPointer]"
       and m = "(new_InMemoryQueueStorage 100000, [])"]
  by (simp add: max_int64_def Mem_Init_def new_InMemoryQueueStorage_def Mem_AddRequestPointer_def
      Mem_AddRequest_def Mem_GetRequest_def Mem_QueueSize_def sample_decode_def
      Mem_GetRequestPointer_def Let_def wrap64_def)

text \<open>
  Claim C3 as stated fails: after \<^verbatim>\<open>Init\<close>, one append and one pop, \<^verbatim>\<open>size\<close> is 0 and
  \<^verbatim>\<open>first\<close> is \<^verbatim>\<open>nil\<close>, but \<^verbatim>\<open>last\<close> still points to the node that was popped.
\<close>

theorem last_pointer_survives_pop_counterexample:
  "size_q (fst (snd (Mem_GetRequestPointer (snd (Mem_AddRequestPointer (Some (1::nat))
      (snd (Mem_Init (new_InMemoryQueueStorage 100000, [])))))))) = 0 \<and>
   first (fst (snd (Mem_GetRequestPointer (snd (Mem_AddRequestPointer (Some (1::nat))
      (snd (Mem_Init (new_InMemoryQueueStorage 100000, [])))))))) = None \<and>
   last_q (fst (snd (Mem_GetRequestPointer (snd (Mem_AddRequestPointer (Some (1::nat))
      (snd (Mem_Init (new_InMemoryQueueStorage 100000, [])))))))) = Some 0"
  by (simp add: Mem_Init_def new_InMemoryQueueStorage_def Mem_AddRequestPointer_def
      Mem_GetRequestPointer_def Let_def wrap64_def)

text \<open>
  Claim C4 is not what the code does. On an initialised, empty store
  \<^verbatim>\<open>GetRequestPointer\<close> returns \<^verbatim>\<open>(nil, nil)\<close>, the test \<^verbatim>\<open>err != nil\<close> in \<^verbatim>\<open>GetRequest\<close>
  fails, and the result of \<^verbatim>\<open>GetRequest\<close> is whatever \<^verbatim>\<open>Marshal\<close> does with a \<^verbatim>\<open>nil\<close>
  request. The store is left as it was.
\<close>

theorem GetRequest_on_empty_store:
  "Mem_GetRequest marshal (snd (Mem_Init (new_InMemoryQueueStorage n, h)))
     = (marshal None, snd (Mem_Init (new_InMemoryQueueStorage n, h)))"
  by (simp add: Mem_GetRequest_def Mem_GetRequestPointer_def Mem_Init_def
      new_InMemoryQueueStorage_def)

text \<open>
  Claim C5. With \<^verbatim>\<open>MaxSize > 0\<close> and \<^verbatim>\<open>size >= MaxSize\<close>, an append to an initialised
  store returns \<^verbatim>\<open>ErrQueueFull\<close> and leaves the store and the heap of its nodes as they
  were. With \<^verbatim>\<open>MaxSize = 1\<close>: the first append to the new store succeeds, the second is
  rejected and changes nothing, and \<^verbatim>\<open>QueueSize\<close> then reports 1.
\<close>

theorem full_store_rejects_append:
  "(lock (fst m) \<noteq> None \<and> 0 < MaxSize (fst m) \<and> MaxSize (fst m) \<le> size_q (fst m) \<longrightarrow>
      Mem_AddRequestPointer r m = (Return (Some ErrQueueFull), m)) \<and>
   (\<exists>m1. Mem_AddRequestPointer r1 (snd (Mem_Init (new_InMemoryQueueStorage 1, h))) = (Return None, m1) \<and>
         Mem_AddRequestPointer r2 m1 = (Return (Some ErrQueueFull), m1) \<and>
         Mem_QueueSize m1 = (Return (1, None), m1))"
proof (intro conjI impI)
  assume "lock (fst m) \<noteq> None \<and> 0 < MaxSize (fst m) \<and> MaxSize (fst m) \<le> size_q (fst m)"
  then show "Mem_AddRequestPointer r m = (Return (Some ErrQueueFull), m)"
    by (simp add: AddRequestPointer_full)
next
  show "\<exists>m1. Mem_AddRequestPointer r1 (snd (Mem_Init (new_InMemoryQueueStorage 1, h))) = (Return None, m1) \<and>
         Mem_AddRequestPointer r2 m1 = (Return (Some ErrQueueFull), m1) \<and>
         Mem_QueueSize m1 = (Return (1, None), m1)"
    by (simp add: Mem_Init_def new_InMemoryQueueStorage_def Mem_AddRequestPointer_def
        Mem_QueueSize_def Let_def wrap64_def)
qed

theorem full_store_rejects_append_witness:
  "lock (fst (\<lparr>MaxSize = 2, lock = Some RWMutex, size_q = 2, first = Some 0, last_q = Some 1\<rparr>,
        [\<lparr>Request = Some (10::nat), Next = Some 1\<rparr>, \<lparr>Request = Some 11, Next = None\<rparr>])) \<noteq> None \<and>
   0 < MaxSize (fst (\<lparr>MaxSize = 2, lock = Some RWMutex, size_q = 2, first = Some 0, last_q = Some 1\<rparr>,
        [\<lparr>Request = Some (10::nat), Next = Some 1\<rparr>, \<lparr>Request = Some 11, Next = None\<rparr>])) \<and>
   MaxSize (fst (\<lparr>MaxSize = 2, lock = Some RWMutex, size_q = 2, first = Some 0, last_q = Some 1\<rparr>,
        [\<lparr>Request = Some (10::nat), Next = Some 1\<rparr>, \<lparr>Request = Some 11, Next = None\<rparr>]))
     \<le> size_q (fst (\<lparr>MaxSize = 2, lock = Some RWMutex, size_q = 2, first = Some 0, last_q = Some 1\<rparr>,
        [\<lparr>Request = Some (10::nat), Next = Some 1\<rparr>, \<lparr>Request = Some 11, Next = None\<rparr>])) \<and>
   Mem_AddRequestPointer (Some 12)
     (\<lparr>MaxSize = 2, lock = Some RWMutex, size_q = 2, first = Some 0, last_q = Some 1\<rparr>,
      [\<lparr>Request = Some (10::nat), Next = Some 1\<rparr>, \<lparr>Request = Some 11, Next = None\<rparr>])
   = (Return (Some ErrQueueFull),
      (\<lparr>MaxSize = 2, lock = Some RWMutex, size_q = 2, first = Some 0, last_q = Some 1\<rparr>,
       [\<lparr>Request = Some 10, Next = Some 1\<rparr>, \<lparr>Request = Some 11, Next = None\<rparr>])) \<and>
   Mem_AddRequestPointer (Some (1::nat)) (snd (Mem_Init (new_InMemoryQueueStorage 1, [])))
   = (Return None,
      (\<lparr>MaxSize = 1, lock = Some RWMutex, size_q = 1, first = Some 0, last_q = Some 0\<rparr>,
       [\<lparr>Request = Some 1, Next = None\<rparr>])) \<and>
   Mem_AddRequestPointer (Some (2::nat))
      (\<lparr>MaxSize = 1, lock = Some RWMutex, size_q = 1, first = Some 0, last_q = Some 0\<rparr>,
       [\<lparr>Request = Some 1, Next = None\<rparr>])
   = (Return (Some ErrQueueFull),
      (\<lparr>MaxSize = 1, lock = Some RWMutex, size_q = 1, first = Some 0, last_q = Some 0\<rparr>,
       [\<lparr>Request = Some 1, Next = None\<rparr>])) \<and>
   fst (Mem_QueueSize
      (\<lparr>MaxSize = 1, lock = Some RWMutex, size_q = 1, first = Some 0, last_q = Some 0\<rparr>,
       [\<lparr>Request = Some (1::nat), Next = None\<rparr>])) = Return (1, None)"
proof -
  have a: "Mem_AddRequestPointer (Some (1::nat)) (snd (Mem_Init (new_InMemoryQueueStorage 1, [])))
   = (Return None,
      (\<lparr>MaxSize = 1, lock = Some RWMutex, size_q = 1, first = Some 0, last_q = Some 0\<rparr>,
       [\<lparr>Request = Some 1, Next = None\<rparr>]))"
    by (simp add: Mem_Init_def new_InMemoryQueueStorage_def Mem_AddRequestPointer_def Let_def
        wrap64_def)
  note t = full_store_rejects_append
    [where m = "(\<lparr>MaxSize = 2, lock = Some RWMutex, size_q = 2, first = Some 0, last_q = Some 1\<rparr>,
        [\<lparr>Request = Some (10::nat), Next = Some 1\<rparr>, \<lparr>Request = Some 11, Next = None\<rparr>])"
      and r = "Some 12" and ?r1.0 = "Some (1::nat)" and ?r2.0 = "Some 2" and h = "[]"]
  show ?thesis using t a by simp
qed

text \<open>
  Claim C6. Into a well-formed, initialised, empty store whose capacity admits three
  items, append \<open>a\<close>, \<open>b\<close>, \<open>c\<close>: all three appends succeed, and the next three pops
  return \<open>a\<close>, then \<open>b\<close>, then \<open>c\<close>, each with a \<^verbatim>\<open>nil\<close> error, and empty the store.
\<close>

theorem fifo_three:
  assumes "store_inv m" and "lock (fst m) \<noteq> None" and "size_q (fst m) = 0"
    and "\<not> (0 < MaxSize (fst m) \<and> MaxSize (fst m) < 3)"
  shows "\<exists>m1 m2 m3 m4 m5 m6.
     Mem_AddRequestPointer a m = (Return None, m1) \<and>
     Mem_AddRequestPointer b m1 = (Return None, m2) \<and>
     Mem_AddRequestPointer c m2 = (Return None, m3) \<and>
     Mem_GetRequestPointer m3 = (Return (a, None), m4) \<and>
     Mem_GetRequestPointer m4 = (Return (b, None), m5) \<and>
     Mem_GetRequestPointer m5 = (Return (c, None), m6) \<and>
     size_q (fst m6) = 0"
proof -
  have c0: "contents m = []" using assms(1,3) contents_Nil_iff by blast
  obtain m1 where 1: "Mem_AddRequestPointer a m = (Return None, m1)" "store_inv m1"
    "contents m1 = [a]" "size_q (fst m1) = 1" "MaxSize (fst m1) = MaxSize (fst m)"
    "lock (fst m1) = lock (fst m)"
    using AddRequestPointer_ok[OF assms(1,2), of a] assms(3,4) c0 by (auto simp: max_int64_def)
  obtain m2 where 2: "Mem_AddRequestPointer b m1 = (Return None, m2)" "store_inv m2"
    "contents m2 = [a, b]" "size_q (fst m2) = 2" "MaxSize (fst m2) = MaxSize (fst m)"
    "lock (fst m2) = lock (fst m)"
    using AddRequestPointer_ok[OF 1(2), of b] 1 assms(2,4) by (auto simp: max_int64_def)
  obtain m3 where 3: "Mem_AddRequestPointer c m2 = (Return None, m3)" "store_inv m3"
    "contents m3 = [a, b, c]" "size_q (fst m3) = 3" "lock (fst m3) = lock (fst m)"
    using AddRequestPointer_ok[OF 2(2), of c] 2 assms(2,4) by (auto simp: max_int64_def)
  obtain m4 where 4: "Mem_GetRequestPointer m3 = (Return (a, None), m4)" "store_inv m4"
    "contents m4 = [b, c]" "lock (fst m4) = lock (fst m)"
    using GetRequestPointer_ok[OF 3(2) _ 3(3)] 3 assms(2) by auto
  obtain m5 where 5: "Mem_GetRequestPointer m4 = (Return (b, None), m5)" "store_inv m5"
    "contents m5 = [c]" "lock (fst m5) = lock (fst m)"
    using GetRequestPointer_ok[OF 4(2) _ 4(3)] 4 assms(2) by auto
  obtain m6 where 6: "Mem_GetRequestPointer m5 = (Return (c, None), m6)" "store_inv m6"
    "contents m6 = []"
    using GetRequestPointer_ok[OF 5(2) _ 5(3)] 5 assms(2) by auto
  from 6 have "size_q (fst m6) = 0" using contents_Nil_iff by blast
  with 1 2 3 4 5 6 show ?thesis by blast
qed

theorem fifo_three_witness:
  "store_inv (snd (Mem_Init (new_InMemoryQueueStorage 100000, []::nat heap))) \<and>
   lock (fst (snd (Mem_Init (new_InMemoryQueueStorage 100000, []::nat heap)))) \<noteq> None \<and>
   size_q (fst (snd (Mem_Init (new_InMemoryQueueStorage 100000, []::nat heap)))) = 0 \<and>
   \<not> (0 < MaxSize (fst (snd (Mem_Init (new_InMemoryQueueStorage 100000, []::nat heap)))) \<and>
      MaxSize (fst (snd (Mem_Init (new_InMemoryQueueStorage 100000, []::nat heap)))) < 3) \<and>
   (\<exists>m1 m2 m3 m4 m5 m6.
     Mem_AddRequestPointer (Some 7) (snd (Mem_Init (new_InMemoryQueueStorage 100000, []::nat heap)))
       = (Return None, m1) \<and>
     Mem_AddRequestPointer (Some 8) m1 = (Return None, m2) \<and>
     Mem_AddRequestPointer (Some 9) m2 = (Return None, m3) \<and>
     Mem_GetRequestPointer m3 = (Return (Some 7, None), m4) \<and>
     Mem_GetRequestPointer m4 = (Return (Some 8, None), m5) \<and>
     Mem_GetRequestPointer m5 = (Return (Some 9, None), m6) \<and>
     size_q (fst m6) = 0)"
proof -
  have 1: "store_inv (snd (Mem_Init (new_InMemoryQueueStorage 100000, []::nat heap)))"
    by (simp add: Mem_Init_def new_InMemoryQueueStorage_def store_inv_def max_int64_def)
  have 2: "lock (fst (snd (Mem_Init (new_InMemoryQueueStorage 100000, []::nat heap)))) \<noteq> None"
    by (simp add: Mem_Init_def new_InMemoryQueueStorage_def)
  have 3: "size_q (fst (snd (Mem_Init (new_InMemoryQueueStorage 100000, []::nat heap)))) = 0"
    by (simp add: Mem_Init_def new_InMemoryQueueStorage_def)
  have 4: "\<not> (0 < MaxSize (fst (snd (Mem_Init (new_InMemoryQueueStorage 100000, []::nat heap)))) \<and>
      MaxSize (fst (snd (Mem_Init (new_InMemoryQueueStorage 100000, []::nat heap)))) < 3)"
    by (simp add: Mem_Init_def new_InMemoryQueueStorage_def)
  show ?thesis using 1 2 3 4 fifo_three[OF 1 2 3 4, of "Some 7" "Some 8" "Some 9"] by blast
qed

text \<open>
  Claim C10. In no state of the store does \<^verbatim>\<open>GetRequestPointer\<close> or \<^verbatim>\<open>QueueSize\<close>
  return an error other than \<^verbatim>\<open>nil\<close>; on an initialised store with \<^verbatim>\<open>size == 0\<close> the
  pop returns a \<^verbatim>\<open>nil\<close> request and a \<^verbatim>\<open>nil\<close> error and changes nothing; on a
  well-formed, initialised store both do return. So the branch of \<^verbatim>\<open>GetRequest\<close> under
  \<^verbatim>\<open>err != nil\<close> is never taken: \<^verbatim>\<open>GetRequest\<close> is \<^verbatim>\<open>Marshal\<close> of whatever the pop
  returned.
\<close>

theorem pop_and_size_never_fail:
  "(\<forall>r err m'. Mem_GetRequestPointer m = (Return (r, err), m') \<longrightarrow> err = None) \<and>
   (\<forall>n err m'. Mem_QueueSize m = (Return (n, err), m') \<longrightarrow> err = None) \<and>
   (lock (fst m) \<noteq> None \<and> size_q (fst m) = 0 \<longrightarrow>
      Mem_GetRequestPointer m = (Return (None, None), m)) \<and>
   (store_inv m \<and> lock (fst m) \<noteq> None \<longrightarrow>
      (\<exists>r m'. Mem_GetRequestPointer m = (Return (r, None), m')) \<and>
      Mem_QueueSize m = (Return (size_q (fst m), None), m)) \<and>
   Mem_GetRequest marshal m =
     (case Mem_GetRequestPointer m of
        (Panic s, m') \<Rightarrow> (Panic s, m')
      | (Return (r, err), m') \<Rightarrow> (marshal r, m'))"
proof (intro conjI allI impI)
  fix r err m' assume "Mem_GetRequestPointer m = (Return (r, err), m')"
  then show "err = None"
    by (cases m) (auto simp: Mem_GetRequestPointer_def split: if_splits option.splits)
next
  fix n err m' assume "Mem_QueueSize m = (Return (n, err), m')"
  then show "err = None"
    by (cases m) (auto simp: Mem_QueueSize_def split: if_splits)
next
  assume "lock (fst m) \<noteq> None \<and> size_q (fst m) = 0"
  then show "Mem_GetRequestPointer m = (Return (None, None), m)"
    by (simp add: GetRequestPointer_empty)
next
  assume a: "store_inv m \<and> lock (fst m) \<noteq> None"
  show "\<exists>r m'. Mem_GetRequestPointer m = (Return (r, None), m')"
  proof (cases "contents m")
    case Nil
    with a have "size_q (fst m) = 0" using contents_Nil_iff by blast
    with a show ?thesis using GetRequestPointer_empty by blast
  next
    case (Cons x xs)
    with a show ?thesis using GetRequestPointer_ok[of m x xs] by blast
  qed
next
  assume a: "store_inv m \<and> lock (fst m) \<noteq> None"
  then show "Mem_QueueSize m = (Return (size_q (fst m), None), m)"
    by (cases m) (simp add: Mem_QueueSize_def)
next
  show "Mem_GetRequest marshal m =
     (case Mem_GetRequestPointer m of
        (Panic s, m') \<Rightarrow> (Panic s, m')
      | (Return (r, err), m') \<Rightarrow> (marshal r, m'))"
    by (cases m) (auto simp: Mem_GetRequest_def Mem_GetRequestPointer_def split: option.splits)
qed

theorem pop_and_size_never_fail_witness:
  "store_inv (snd (Mem_Init (new_InMemoryQueueStorage 100000, []::nat heap))) \<and>
   lock (fst (snd (Mem_Init (new_InMemoryQueueStorage 100000, []::nat heap)))) \<noteq> None \<and>
   size_q (fst (snd (Mem_Init (new_InMemoryQueueStorage 100000, []::nat heap)))) = 0 \<and>
   Mem_GetRequestPointer (snd (Mem_Init (new_InMemoryQueueStorage 100000, []::nat heap)))
     = (Return (None, None), snd (Mem_Init (new_InMemoryQueueStorage 100000, []))) \<and>
   Mem_QueueSize (snd (Mem_Init (new_InMemoryQueueStorage 100000, []::nat heap)))
     = (Return (0, None), snd (Mem_Init (new_InMemoryQueueStorage 100000, []))) \<and>
   Mem_GetRequest sample_marshal (snd (Mem_Init (new_InMemoryQueueStorage 100000, [])))
     = (Panic nil_dereference, snd (Mem_Init (new_InMemoryQueueStorage 100000, [])))"
  using pop_and_size_never_fail
    [of "snd (Mem_Init (new_InMemoryQueueStorage 100000, []::nat heap))" sample_marshal]
  by (simp add: Mem_Init_def new_InMemoryQueueStorage_def store_inv_def max_int64_def
      sample_marshal_def)

section \<open>Properties of the coordinator\<close>

subsection \<open>The wake channel is written once\<close>

lemma Storage_Init_trace: "Storage_Init env s = (out, s', t) \<Longrightarrow> t = [Call_Init]"
  by (auto simp: Storage_Init_def split: Storage.splits prod.splits)

lemma storeRequest_wake: "wake (fst (snd (storeRequest env q r))) = wake q"
  by (auto simp: storeRequest_def split: Storage.splits prod.splits outcome.splits option.splits)

lemma storeRequest_no_wake: "Send_wake \<notin> set (snd (snd (storeRequest env q r)))"
  by (auto simp: storeRequest_def Storage_AddRequest_def
      split: Storage.splits prod.splits outcome.splits option.splits)

lemma Queue_AddRequest_wake: "wake (fst (snd (Queue_AddRequest env q r))) = wake q"
  using storeRequest_wake[of env q r]
  by (auto simp: Queue_AddRequest_def Let_def split: prod.splits outcome.splits option.splits)

lemma AddURL_wake: "wake (fst (snd (AddURL env q u))) = wake q"
  by (auto simp: AddURL_def storeRequest_wake split: sum.splits)

lemma Queue_Size_wake: "wake (fst (snd (Queue_Size env q))) = wake q"
  by (auto simp: Queue_Size_def split: prod.splits)

lemma IsEmpty_wake: "wake (fst (snd (IsEmpty env q))) = wake q"
  using Queue_Size_wake[of env q]
  by (auto simp: IsEmpty_def split: prod.splits outcome.splits)

lemma loadRequest_wake: "wake (fst (snd (loadRequest env q))) = wake q"
  by (auto simp: loadRequest_def split: prod.splits outcome.splits option.splits)

lemma loop_step_wake: "loop_step env c = Some c' \<Longrightarrow> wake (sq c') = wake (sq c)"
  using Queue_Size_wake[of env "sq c"] loadRequest_wake[of env "sq c"]
  by (auto simp: loop_step_def split: loop_pc.splits prod.splits outcome.splits option.splits if_splits)

lemma produced_sq: "sq (produced c rs res) = fst (snd res)"
  by (auto simp: produced_def split: prod.splits outcome.splits)

lemma step_wake: "step env c l = Some c' \<Longrightarrow> wake (sq c') = wake (sq c)"
proof (cases l)
  case LoopStep
  assume "step env c l = Some c'"
  with LoopStep show ?thesis by (auto dest: loop_step_wake split: if_splits)
next
  case (Enqueue r)
  assume "step env c l = Some c'"
  with Enqueue show ?thesis using Queue_AddRequest_wake[of env "sq c" r]
    by (auto simp: produced_sq split: if_splits)
next
  case (StoreOnly r)
  assume "step env c l = Some c'"
  with StoreOnly show ?thesis using storeRequest_wake[of env "sq c" r]
    by (auto simp: produced_sq split: if_splits)
next
  case (EnqueueURL u)
  assume "step env c l = Some c'"
  with EnqueueURL show ?thesis using AddURL_wake[of env "sq c" u]
    by (auto simp: produced_sq split: if_splits)
next
  case AskSize
  assume "step env c l = Some c'"
  with AskSize show ?thesis using Queue_Size_wake[of env "sq c"]
    by (auto split: if_splits prod.splits outcome.splits)
qed (auto split: loop_pc.splits option.splits if_splits worker.splits outcome.splits)

lemma Run_wait_wake: "Run_wait env c sched = Some (out, c') \<Longrightarrow> wake (sq c') = wake (sq c)"
proof (induction sched arbitrary: c)
  case Nil
  then show ?case by (auto split: option.splits)
next
  case (Cons l ls)
  show ?case
  proof (cases "crashed c = None \<and> result c = None")
    case True
    with Cons.prems obtain c1 where s: "step env c l = Some c1" and r: "Run_wait env c1 ls = Some (out, c')"
      by (auto split: option.splits)
    from Cons.IH[OF r] step_wake[OF s] show ?thesis by simp
  next
    case False
    with Cons.prems show ?thesis by (auto split: option.splits)
  qed
qed

lemmas eval_defs = Run_def started_def not_running_def loop_step_def Queue_Size_def Storage_QueueSize_def
  Mem_QueueSize_def loadRequest_def Storage_GetRequest_def Mem_GetRequest_def
  Mem_GetRequestPointer_def sample_env_def sample_marshal_def sample_unmarshal_def
  sample_decode_def sample_Do_def wrap64_def Queue_AddRequest_def storeRequest_def
  Mem_AddRequestPointer_def AddURL_def produced_def Let_def

lemma replicate_two: "replicate 2 x = [x, x]"
  by (simp add: numeral_2_eq_2)

subsection \<open>The claims about the constructor, the enqueue path and the guard of Run\<close>

text \<open>
  Claim C7. When \<^verbatim>\<open>Run\<close> is active (\<^verbatim>\<open>q.wake\<close> is not \<^verbatim>\<open>nil\<close>), \<^verbatim>\<open>AddRequest\<close> does
  what \<^verbatim>\<open>storeRequest\<close> does and then, only if that returned a \<^verbatim>\<open>nil\<close> error, sends on
  \<^verbatim>\<open>q.wake\<close>: the send is the last action, after the storage call. If storing returns
  an error (or panics) the caller gets that and nothing is sent. When \<^verbatim>\<open>Run\<close> is not
  active, \<^verbatim>\<open>AddRequest\<close> is \<^verbatim>\<open>storeRequest\<close>, which never sends. For the in-memory
  store, storing is one call of \<^verbatim>\<open>AddRequestPointer\<close>.
\<close>

theorem AddRequest_stores_then_wakes:
  "(wake q \<noteq> None \<longrightarrow>
      (\<forall>q' t. storeRequest env q r = (Return None, q', t) \<longrightarrow>
         Queue_AddRequest env q r = (Return None, q', t @ [Send_wake])) \<and>
      (\<forall>err q' t. storeRequest env q r = (Return (Some err), q', t) \<longrightarrow>
         Queue_AddRequest env q r = (Return (Some err), q', t)) \<and>
      (\<forall>msg q' t. storeRequest env q r = (Panic msg, q', t) \<longrightarrow>
         Queue_AddRequest env q r = (Panic msg, q', t))) \<and>
   (wake q = None \<longrightarrow> Queue_AddRequest env q r = storeRequest env q r) \<and>
   Send_wake \<notin> set (snd (snd (storeRequest env q r))) \<and>
   (\<forall>m. storage q = InMemory m \<longrightarrow>
      storeRequest env q r =
        (fst (Mem_AddRequestPointer r m), q\<lparr>storage := InMemory (snd (Mem_AddRequestPointer r m))\<rparr>,
         [Call_AddRequestPointer r]))"
  using storeRequest_no_wake[of env q r]
  by (auto simp: Queue_AddRequest_def Let_def storeRequest_def split: prod.splits)

theorem AddRequest_stores_then_wakes_witness:
  "Queue_AddRequest sample_env (sample_queue\<lparr>wake := Some Chan\<rparr>) (Some 5)
   = (Return None,
      \<lparr>Threads = 2,
       storage = InMemory (\<lparr>MaxSize = 100000, lock = Some RWMutex, size_q = 1, first = Some 0,
                           last_q = Some 0\<rparr>, [\<lparr>Request = Some 5, Next = None\<rparr>]),
       wake = Some Chan\<rparr>,
      [Call_AddRequestPointer (Some 5), Send_wake]) \<and>
   Queue_AddRequest sample_env
     \<lparr>Threads = 2,
      storage = InMemory (\<lparr>MaxSize = 1, lock = Some RWMutex, size_q = 1, first = Some 0,
                          last_q = Some 0\<rparr>, [\<lparr>Request = Some 5, Next = None\<rparr>]),
      wake = Some Chan\<rparr> (Some 6)
   = (Return (Some ErrQueueFull),
      \<lparr>Threads = 2,
       storage = InMemory (\<lparr>MaxSize = 1, lock = Some RWMutex, size_q = 1, first = Some 0,
                           last_q = Some 0\<rparr>, [\<lparr>Request = Some 5, Next = None\<rparr>]),
       wake = Some Chan\<rparr>,
      [Call_AddRequestPointer (Some 6)]) \<and>
   Queue_AddRequest sample_env
     \<lparr>Threads = 2, storage = InMemory (new_InMemoryQueueStorage 1, []), wake = Some Chan\<rparr> (Some 5)
   = (Panic nil_dereference,
      \<lparr>Threads = 2, storage = InMemory (new_InMemoryQueueStorage 1, []), wake = Some Chan\<rparr>,
      [Call_AddRequestPointer (Some 5)]) \<and>
   Queue_AddRequest sample_env sample_queue (Some 5)
   = (Return None,
      \<lparr>Threads = 2,
       storage = InMemory (\<lparr>MaxSize = 100000, lock = Some RWMutex, size_q = 1, first = Some 0,
                           last_q = Some 0\<rparr>, [\<lparr>Request = Some 5, Next = None\<rparr>]),
       wake = None\<rparr>,
      [Call_AddRequestPointer (Some 5)]) \<and>
   Queue_AddRequest sample_env
     \<lparr>Threads = 2, storage = External [], wake = Some Chan\<rparr> (Some 5)
   = (Return None, \<lparr>Threads = 2, storage = External [[5]], wake = Some Chan\<rparr>,
      [Call_AddRequest [5], Send_wake]) \<and>
   Queue_AddRequest sample_env
     \<lparr>Threads = 2, storage = External [], wake = Some Chan\<rparr> (Some 0)
   = (Return (Some (ErrOther ''read error'')),
      \<lparr>Threads = 2, storage = External [], wake = Some Chan\<rparr>, [])"
proof -
  let ?q0 = "sample_queue\<lparr>wake := Some Chan\<rparr>"
  let ?q1 = "\<lparr>Threads = 2,
      storage = InMemory (\<lparr>MaxSize = 1, lock = Some RWMutex, size_q = 1, first = Some 0,
                          last_q = Some 0\<rparr>, [\<lparr>Request = Some 5, Next = None\<rparr>]),
      wake = Some Chan\<rparr> :: (nat, bytes list) Queue"
  let ?q2 = "\<lparr>Threads = 2, storage = InMemory (new_InMemoryQueueStorage 1, []),
      wake = Some Chan\<rparr> :: (nat, bytes list) Queue"
  let ?q3 = "\<lparr>Threads = 2, storage = External [], wake = Some Chan\<rparr> :: (nat, bytes list) Queue"
  have s0: "storeRequest sample_env ?q0 (Some 5) =
     (Return None,
      \<lparr>Threads = 2,
       storage = InMemory (\<lparr>MaxSize = 100000, lock = Some RWMutex, size_q = 1, first = Some 0,
                           last_q = Some 0\<rparr>, [\<lparr>Request = Some 5, Next = None\<rparr>]),
       wake = Some Chan\<rparr>, [Call_AddRequestPointer (Some 5)])"
    by (simp add: sample_queue_def storeRequest_def Mem_AddRequestPointer_def Let_def wrap64_def)
  have s1: "storeRequest sample_env ?q1 (Some 6)
              = (Return (Some ErrQueueFull), ?q1, [Call_AddRequestPointer (Some 6)])"
    by (simp add: storeRequest_def Mem_AddRequestPointer_def Let_def wrap64_def)
  have s2: "storeRequest sample_env ?q2 (Some 5)
              = (Panic nil_dereference, ?q2, [Call_AddRequestPointer (Some 5)])"
    by (simp add: storeRequest_def Mem_AddRequestPointer_def new_InMemoryQueueStorage_def)
  have s3: "storeRequest sample_env sample_queue (Some 5) =
     (Return None,
      \<lparr>Threads = 2,
       storage = InMemory (\<lparr>MaxSize = 100000, lock = Some RWMutex, size_q = 1, first = Some 0,
                           last_q = Some 0\<rparr>, [\<lparr>Request = Some 5, Next = None\<rparr>]),
       wake = None\<rparr>, [Call_AddRequestPointer (Some 5)])"
    by (simp add: sample_queue_def storeRequest_def Mem_AddRequestPointer_def Let_def wrap64_def)
  have s4: "storeRequest sample_env ?q3 (Some 5) =
     (Return None, \<lparr>Threads = 2, storage = External [[5]], wake = Some Chan\<rparr>,
      [Call_AddRequest [5]])"
    by (simp add: storeRequest_def Storage_AddRequest_def sample_env_def sample_marshal_def)
  have s5: "storeRequest sample_env ?q3 (Some 0) =
     (Return (Some (ErrOther ''read error'')), ?q3, [])"
    by (simp add: storeRequest_def Storage_AddRequest_def sample_env_def sample_marshal_def)
  have w: "wake ?q0 \<noteq> None" "wake sample_queue = None" by (simp_all add: sample_queue_def)
  show ?thesis
    using AddRequest_stores_then_wakes[of ?q0 sample_env "Some 5"]
      AddRequest_stores_then_wakes[of ?q1 sample_env "Some 6"]
      AddRequest_stores_then_wakes[of ?q2 sample_env "Some 5"]
      AddRequest_stores_then_wakes[of sample_queue sample_env "Some 5"]
      AddRequest_stores_then_wakes[of ?q3 sample_env "Some 5"]
      AddRequest_stores_then_wakes[of ?q3 sample_env "Some 0"]
      s0 s1 s2 s3 s4 s5 w
    by simp
qed

text \<open>
  Claim C8. \<^verbatim>\<open>Run\<close> on a coordinator whose \<^verbatim>\<open>wake\<close> is not \<^verbatim>\<open>nil\<close> panics with
  \<^verbatim>\<open>"cannot call duplicate Queue.Run"\<close>: it returns no error value, changes nothing
  and starts no goroutine. Whenever \<^verbatim>\<open>Run\<close> has returned or panicked, \<^verbatim>\<open>wake\<close> is not
  \<^verbatim>\<open>nil\<close>, so calling \<^verbatim>\<open>Run\<close> again on that coordinator panics. No transition of the
  running program and no other function of the coordinator writes \<^verbatim>\<open>wake\<close>.
\<close>

theorem duplicate_Run_panics:
  "(wake q \<noteq> None \<longrightarrow>
      Run env q sched = Some (Panic ''cannot call duplicate Queue.Run'', not_running q)) \<and>
   (\<forall>out c. Run env q sched = Some (out, c) \<longrightarrow>
      wake (sq c) \<noteq> None \<and>
      Run env (sq c) sched' = Some (Panic ''cannot call duplicate Queue.Run'', not_running (sq c))) \<and>
   (\<forall>c'. step env c l = Some c' \<longrightarrow> wake (sq c') = wake (sq c)) \<and>
   wake (fst (snd (Queue_AddRequest env q r))) = wake q \<and>
   wake (fst (snd (AddURL env q u))) = wake q \<and>
   wake (fst (snd (Queue_Size env q))) = wake q \<and>
   wake (fst (snd (IsEmpty env q))) = wake q"
proof -
  have a: "wake (sq c) \<noteq> None" if "Run env q sched = Some (out, c)" for out c
  proof (cases "wake q = None")
    case True
    with that have "wake (sq c) = Some Chan"
      using Run_wait_wake[of env _ sched out c] by (auto simp: Run_def started_def not_running_def)
    then show ?thesis by simp
  next
    case False
    with that show ?thesis by (auto simp: Run_def started_def not_running_def)
  qed
  have b: "Run env q' sched' = Some (Panic ''cannot call duplicate Queue.Run'', not_running q')"
    if "wake q' \<noteq> None" for q' :: "('a, 'b) Queue" and sched'
    using that by (simp add: Run_def started_def)
  show ?thesis
    using a b step_wake[of env c l] Queue_AddRequest_wake[of env q r] AddURL_wake[of env q u]
      Queue_Size_wake[of env q] IsEmpty_wake[of env q]
    by (auto simp: Run_def started_def)
qed

theorem duplicate_Run_panics_witness:
  "wake (sample_queue\<lparr>wake := Some Chan\<rparr>) \<noteq> None \<and>
   Run sample_env (sample_queue\<lparr>wake := Some Chan\<rparr>) [LoopStep]
     = Some (Panic ''cannot call duplicate Queue.Run'', not_running (sample_queue\<lparr>wake := Some Chan\<rparr>)) \<and>
   Run sample_env sample_queue [LoopStep, RunReturn]
     = Some (Return None, (started sample_queue)\<lparr>pc := Exited, result := Some None\<rparr>) \<and>
   wake (sq ((started sample_queue)\<lparr>pc := Exited, result := Some None\<rparr>)) = Some Chan \<and>
   Run sample_env (sq ((started sample_queue)\<lparr>pc := Exited, result := Some None\<rparr>)) [LoopStep]
     = Some (Panic ''cannot call duplicate Queue.Run'',
         not_running (sq ((started sample_queue)\<lparr>pc := Exited, result := Some None\<rparr>))) \<and>
   step sample_env (started two_items) LoopStep = Some ((started two_items)\<lparr>pc := Load\<rparr>) \<and>
   wake (sq ((started two_items)\<lparr>pc := Load\<rparr>)) = wake (sq (started two_items))"
proof -
  have r: "Run sample_env sample_queue [LoopStep, RunReturn]
     = Some (Return None, (started sample_queue)\<lparr>pc := Exited, result := Some None\<rparr>)"
    by (simp add: sample_queue_def eval_defs replicate_two)
  have s: "step sample_env (started two_items) LoopStep = Some ((started two_items)\<lparr>pc := Load\<rparr>)"
    by (simp add: two_items_def eval_defs replicate_two)
  have w: "wake (sample_queue\<lparr>wake := Some Chan\<rparr>) \<noteq> None" by simp
  note t = duplicate_Run_panics[where q = "sample_queue\<lparr>wake := Some Chan\<rparr>" and env = sample_env
      and sched = "[LoopStep]" and c = "started two_items" and l = LoopStep
      and r = None and u = "[]" and sched' = "[]"]
  note t2 = duplicate_Run_panics[where q = sample_queue and env = sample_env
      and sched = "[LoopStep, RunReturn]" and c = "started two_items" and l = LoopStep
      and r = None and u = "[]" and sched' = "[LoopStep]"]
  from t w have a: "Run sample_env (sample_queue\<lparr>wake := Some Chan\<rparr>) [LoopStep]
     = Some (Panic ''cannot call duplicate Queue.Run'', not_running (sample_queue\<lparr>wake := Some Chan\<rparr>))"
    by blast
  from t2 r have b: "Run sample_env (sq ((started sample_queue)\<lparr>pc := Exited, result := Some None\<rparr>)) [LoopStep]
     = Some (Panic ''cannot call duplicate Queue.Run'',
          not_running (sq ((started sample_queue)\<lparr>pc := Exited, result := Some None\<rparr>)))"
    by blast
  from t2 s have c: "wake (sq ((started two_items)\<lparr>pc := Load\<rparr>)) = wake (sq (started two_items))"
    by blast
  have d: "wake (sq ((started sample_queue)\<lparr>pc := Exited, result := Some None\<rparr>)) = Some Chan"
    by (simp add: started_def not_running_def)
  from w a r b s c d show ?thesis by blast
qed

text \<open>
  Claim C9. For every thread count, \<^verbatim>\<open>New\<close> with a \<^verbatim>\<open>nil\<close> storage returns a
  coordinator over a new in-memory store with \<^verbatim>\<open>MaxSize\<close> 100000 on which \<^verbatim>\<open>Init\<close> has
  run (its lock is set); the only storage method \<^verbatim>\<open>New\<close> calls, for any storage, is
  \<^verbatim>\<open>Init\<close>, once. If \<^verbatim>\<open>Init\<close> of a given storage returns an error, \<^verbatim>\<open>New\<close> returns that
  error and no coordinator.
\<close>

theorem New_default_storage:
  "New env threads None =
     (Return (Some \<lparr>Threads = threads,
                     storage = InMemory (\<lparr>MaxSize = 100000, lock = Some RWMutex, size_q = 0,
                                          first = None, last_q = None\<rparr>, []),
                     wake = None\<rparr>, None),
      [Call_Init]) \<and>
   snd (New env threads s) = [Call_Init] \<and>
   (\<forall>s' err. fst (Storage_Init env s') = Return (Some err) \<longrightarrow>
      New env threads (Some s') = (Return (None, Some err), [Call_Init]))"
proof (intro conjI allI impI)
  show "New env threads None =
     (Return (Some \<lparr>Threads = threads,
                     storage = InMemory (\<lparr>MaxSize = 100000, lock = Some RWMutex, size_q = 0,
                                          first = None, last_q = None\<rparr>, []),
                     wake = None\<rparr>, None),
      [Call_Init])"
    by (simp add: New_def Storage_Init_def Mem_Init_def new_InMemoryQueueStorage_def)
next
  show "snd (New env threads s) = [Call_Init]"
    by (auto simp: New_def Let_def dest: Storage_Init_trace
        split: prod.splits outcome.splits option.splits)
next
  fix s' err assume "fst (Storage_Init env s') = Return (Some err)"
  then show "New env threads (Some s') = (Return (None, Some err), [Call_Init])"
    by (auto simp: New_def dest: Storage_Init_trace
        split: prod.splits outcome.splits option.splits)
qed

theorem New_default_storage_witness:
  "fst (Storage_Init sample_env (External [[1], []])) = Return (Some (ErrOther ''corrupt queue'')) \<and>
   New sample_env 2 (Some (External [[1], []]))
     = (Return (None, Some (ErrOther ''corrupt queue'')), [Call_Init]) \<and>
   New sample_env 2 None =
     (Return (Some \<lparr>Threads = 2,
                     storage = InMemory (\<lparr>MaxSize = 100000, lock = Some RWMutex, size_q = 0,
                                          first = None, last_q = None\<rparr>, []),
                     wake = None\<rparr>, None),
      [Call_Init])"
  using New_default_storage[of sample_env 2 None]
  by (simp add: Storage_Init_def sample_env_def)

section \<open>Properties of Run\<close>

subsection \<open>How the loop exits\<close>

lemma Queue_Size_InMemory:
  "storage q = InMemory m \<Longrightarrow>
   Queue_Size env q =
     (if lock (fst m) = None then (Panic nil_dereference, q, [Call_QueueSize])
      else (Return (size_q (fst m), None), q, [Call_QueueSize]))"
  by (cases m) (auto simp: Queue_Size_def Storage_QueueSize_def Mem_QueueSize_def)

lemma step_errc:
  "step env c l = Some c' \<Longrightarrow> errc c' \<noteq> errc c \<Longrightarrow> errc c' \<noteq> None
   \<Longrightarrow> l = LoopStep \<and> pc c = Top \<and> crashed c = None"
  by (cases l)
     (auto simp: loop_step_def produced_def
       split: loop_pc.splits option.splits if_splits worker.splits outcome.splits prod.splits)

lemma step_result:
  "step env c l = Some c' \<Longrightarrow> result c' \<noteq> result c
   \<Longrightarrow> l = RunReturn \<and> result c = None \<and> result c' = errc c \<and> errc c \<noteq> None \<and> crashed c' = None"
  by (cases l)
     (auto simp: loop_step_def produced_def
       split: loop_pc.splits option.splits if_splits worker.splits outcome.splits prod.splits)

lemma step_enabled: "step env c l = Some c' \<Longrightarrow> crashed c = None"
  by (cases l) (auto split: loop_pc.splits option.splits if_splits)

lemma loop_step_exit:
  assumes "loop_step env c = Some c'" "pc c = Top" "errc c \<noteq> Some None" "errc c' = Some None"
  shows "active c = 0 \<and> fst (Queue_Size env (sq c)) = Return (0, None) \<and>
         c' = c\<lparr>sq := fst (snd (Queue_Size env (sq c))), errc := Some None, pc := Exited\<rparr>"
  using assms
  by (auto simp: loop_step_def split: prod.splits outcome.splits option.splits if_splits)

lemma loop_step_Top:
  assumes "pc c = Top" "errc c = None"
  shows "\<exists>c'. loop_step env c = Some c' \<and>
           (errc c' = Some None \<longleftrightarrow> fst (Queue_Size env (sq c)) = Return (0, None) \<and> active c = 0)"
  using assms
  by (auto simp: loop_step_def split: prod.splits outcome.splits option.splits if_splits)

lemma Run_wait_step:
  assumes "Run_wait env c (l # ls) = Some (Return err, c')" "result c = None"
  shows "\<exists>c1. step env c l = Some c1 \<and> Run_wait env c1 ls = Some (Return err, c') \<and>
           crashed c = None \<and> crashed c1 = None"
proof -
  from assms obtain c1 where s: "step env c l = Some c1"
    and r: "Run_wait env c1 ls = Some (Return err, c')" and n: "crashed c = None"
    by (auto split: option.splits)
  from r have "crashed c1 = None" by (cases ls) (auto split: option.splits)
  with s r n show ?thesis by blast
qed

lemma Run_wait_returned:
  assumes "Run_wait env c sched = Some (Return err, c')" "result c \<noteq> None"
  shows "c' = c \<and> result c = Some err \<and> crashed c = None"
  using assms by (cases sched) (auto split: option.splits)

lemma Run_wait_nil:
  "Run_wait env c sched = Some (Return None, c') \<Longrightarrow> errc c \<noteq> Some None
   \<Longrightarrow> result c \<noteq> Some None
   \<Longrightarrow> \<exists>pre post c0. sched = pre @ LoopStep # post \<and> exec env c pre = Some c0 \<and>
         pc c0 = Top \<and> active c0 = 0 \<and> fst (Queue_Size env (sq c0)) = Return (0, None)"
proof (induction sched arbitrary: c)
  case Nil
  then show ?case by (auto split: option.splits)
next
  case (Cons l ls)
  have rn: "result c = None"
    using Run_wait_returned[OF Cons.prems(1)] Cons.prems(3) by (cases "result c") auto
  from Run_wait_step[OF Cons.prems(1) rn] obtain c1 where s: "step env c l = Some c1"
    and r: "Run_wait env c1 ls = Some (Return None, c')"
    by blast
  have r1: "result c1 \<noteq> Some None"
    using step_result[OF s] rn Cons.prems(2) by (cases "result c1 = result c") auto
  show ?case
  proof (cases "errc c1 = Some None")
    case True
    with Cons.prems(2) have "errc c1 \<noteq> errc c" "errc c1 \<noteq> None" by auto
    from step_errc[OF s this] have l: "l = LoopStep" and top: "pc c = Top"
      and n: "crashed c = None" by auto
    from s l n have "loop_step env c = Some c1" by simp
    from loop_step_exit[OF this top Cons.prems(2) True]
    have "active c = 0 \<and> fst (Queue_Size env (sq c)) = Return (0, None)" by simp
    with top l show ?thesis
      by (intro exI[of _ "[]"] exI[of _ ls] exI[of _ c]) simp
  next
    case False
    from Cons.IH[OF r False r1] obtain pre post c0 where
      "ls = pre @ LoopStep # post" "exec env c1 pre = Some c0" "pc c0 = Top" "active c0 = 0"
      "fst (Queue_Size env (sq c0)) = Return (0, None)"
      by blast
    with s show ?thesis
      by (intro exI[of _ "l # pre"] exI[of _ post] exI[of _ c0]) simp
  qed
qed

lemma Run_wait_invariant:
  assumes stp: "\<And>n c l c'. I (Suc n) c \<Longrightarrow> step env c l = Some c' \<Longrightarrow> crashed c' = None
              \<Longrightarrow> I n c'"
  shows "Run_wait env c sched = Some (Return err, c') \<Longrightarrow> I (length sched) c
         \<Longrightarrow> \<exists>n. I n c' \<and> result c' = Some err \<and> crashed c' = None"
proof (induction sched arbitrary: c)
  case Nil
  then show ?case by (auto split: option.splits)
next
  case (Cons l ls)
  show ?case
  proof (cases "result c = None")
    case True
    from Run_wait_step[OF Cons.prems(1) True] obtain c1 where s: "step env c l = Some c1"
      and r: "Run_wait env c1 ls = Some (Return err, c')" and n: "crashed c1 = None"
      by blast
    from Cons.prems(2) have "I (Suc (length ls)) c" by simp
    from stp[OF this s n] have "I (length ls) c1" .
    from Cons.IH[OF r this] show ?thesis .
  next
    case False
    from Run_wait_returned[OF Cons.prems(1) False] Cons.prems(2) show ?thesis by blast
  qed
qed

lemma Queue_Size_InMemory_after:
  assumes "Queue_Size env q = (Return (n, e), q', t)" "storage q' = InMemory m"
  shows "q' = q \<and> n = size_q (fst m) \<and> e = None \<and> lock (fst m) \<noteq> None"
  using assms
  by (cases "storage q"; cases m)
     (auto simp: Queue_Size_def Storage_QueueSize_def Mem_QueueSize_def
       split: prod.splits if_splits)

lemma storeRequest_kind:
  "storage (fst (snd (storeRequest env q r))) = InMemory m'
   \<Longrightarrow> \<exists>m. storage q = InMemory m \<and> storeRequest env q r
         = (fst (Mem_AddRequestPointer r m), q\<lparr>storage := InMemory (snd (Mem_AddRequestPointer r m))\<rparr>,
            [Call_AddRequestPointer r]) \<and> m' = snd (Mem_AddRequestPointer r m)"
  by (cases "storage q")
     (auto simp: storeRequest_def Storage_AddRequest_def
       split: prod.splits outcome.splits option.splits)

lemma AddRequestPointer_drained:
  assumes "size_q (fst m) = 0" "lock (fst m) \<noteq> None"
  shows "(\<exists>msg. fst (Mem_AddRequestPointer r m) = Panic msg) \<or>
         fst (Mem_AddRequestPointer r m) = Return None"
  using assms
  by (cases m) (auto simp: Mem_AddRequestPointer_def Let_def split: option.splits)

lemma storeRequest_drained:
  assumes "storeRequest env q r = (Return err, q', t)" "storage q' = InMemory m'"
    "\<forall>m. storage q = InMemory m \<longrightarrow> size_q (fst m) = 0 \<and> lock (fst m) \<noteq> None"
  shows "err = None"
proof -
  from assms(1,2) have "storage (fst (snd (storeRequest env q r))) = InMemory m'" by simp
  from storeRequest_kind[OF this] obtain m where m: "storage q = InMemory m"
    and e: "storeRequest env q r
         = (fst (Mem_AddRequestPointer r m), q\<lparr>storage := InMemory (snd (Mem_AddRequestPointer r m))\<rparr>,
            [Call_AddRequestPointer r])"
    by blast
  from assms(3) m have "size_q (fst m) = 0" "lock (fst m) \<noteq> None" by auto
  from AddRequestPointer_drained[OF this, of r] e assms(1) show ?thesis by auto
qed

lemma produced_drained:
  assumes c': "c' = produced c rs res" and n: "crashed c' = None" "crashed c = None"
    and res: "res = storeRequest env (sq c) r \<or> res = Queue_AddRequest env (sq c) r"
    and rs: "rs \<noteq> []" and ex: "pc c = Exited"
    and d: "\<forall>m. storage (sq c) = InMemory m \<longrightarrow> size_q (fst m) = 0 \<and> lock (fst m) \<noteq> None"
    and m': "storage (sq c') = InMemory m'"
  shows "late c' \<noteq> []"
proof -
  obtain out q' t where s: "storeRequest env (sq c) r = (out, q', t)"
    by (cases "storeRequest env (sq c) r") auto
  have "\<exists>t2. Queue_AddRequest env (sq c) r = (out, q', t2)"
    using s by (cases out) (auto simp: Queue_AddRequest_def Let_def split: option.splits)
  with res s obtain t2 where r2: "res = (out, q', t2)" by auto
  from c' n r2 obtain err where o: "out = Return err"
    by (cases out) (auto simp: produced_def)
  from c' r2 o m' have "storage q' = InMemory m'" by (simp add: produced_def)
  from storeRequest_drained[OF s[unfolded o] this d] have "err = None" .
  with c' r2 o rs ex show ?thesis by (simp add: produced_def)
qed

lemma exit_step:
  assumes inv: "exit_inv c" and st: "step env c l = Some c'" and ok: "crashed c' = None"
  shows "exit_inv c'"
proof -
  have n: "crashed c = None" using st by (rule step_enabled)
  from inv have E: "errc c = Some None \<or> result c = Some None \<Longrightarrow> pc c = Exited \<and> active c = 0"
    and D: "errc c = Some None \<or> result c = Some None \<Longrightarrow> late c = [] \<Longrightarrow> storage (sq c) = InMemory m
            \<Longrightarrow> size_q (fst m) = 0 \<and> lock (fst m) \<noteq> None"
    and L: "pc c \<noteq> Exited \<Longrightarrow> late c = []" for m
    by (auto simp: exit_inv_def)
  show ?thesis
  proof (cases l)
    case LoopStep
    with st have ls: "loop_step env c = Some c'" by (auto split: if_splits)
    then have p: "pc c = Top \<or> pc c = Load" by (auto simp: loop_step_def split: loop_pc.splits)
    with E have ne: "errc c \<noteq> Some None" "result c \<noteq> Some None" by auto
    from ls have r: "result c' = result c" "late c' = late c"
      by (auto simp: loop_step_def split: loop_pc.splits prod.splits outcome.splits option.splits if_splits)
    show ?thesis
    proof (cases "errc c' = Some None")
      case True
      from ls p ne True have top: "pc c = Top"
        by (auto simp: loop_step_def split: loop_pc.splits prod.splits outcome.splits option.splits)
      note ex = loop_step_exit[OF ls top ne(1) True]
      obtain q' t where qs: "Queue_Size env (sq c) = (Return (0, None), q', t)"
        using ex by (cases "Queue_Size env (sq c)") auto
      have c': "c' = c\<lparr>sq := q', errc := Some None, pc := Exited\<rparr>" using ex qs by simp
      have "size_q (fst m) = 0 \<and> lock (fst m) \<noteq> None" if "storage (sq c') = InMemory m" for m
        using Queue_Size_InMemory_after[OF qs] that c' by simp
      with ex c' show ?thesis by (simp add: exit_inv_def)
    next
      case False
      from ls p L have "pc c' \<noteq> Exited \<longrightarrow> late c' = []"
        by (auto simp: loop_step_def split: loop_pc.splits prod.splits outcome.splits option.splits if_splits)
      with False r ne show ?thesis by (simp add: exit_inv_def)
    qed
  next
    case (Handoff i)
    with st E L show ?thesis
      by (auto simp: exit_inv_def split: loop_pc.splits option.splits if_splits)
  next
    case WakeRecv
    with st E L show ?thesis
      by (auto simp: exit_inv_def split: loop_pc.splits option.splits if_splits)
  next
    case (CompleteRecv i)
    with st E L show ?thesis
      by (auto simp: exit_inv_def split: loop_pc.splits option.splits if_splits)
  next
    case (Exec i)
    with st ok have "sq c' = sq c \<and> pc c' = pc c \<and> active c' = active c \<and> errc c' = errc c \<and>
        result c' = result c \<and> late c' = late c"
      by (auto split: worker.splits outcome.splits if_splits)
    with inv show ?thesis by (simp add: exit_inv_def)
  next
    case (Enqueue r)
    with st n have c': "c' = produced c [r] (Queue_AddRequest env (sq c) r)" by simp
    from c' ok have k: "pc c' = pc c \<and> active c' = active c \<and> errc c' = errc c \<and>
        result c' = result c \<and> (pc c \<noteq> Exited \<longrightarrow> late c' = late c)"
      by (auto simp: produced_def split: prod.splits outcome.splits)
    have "late c' \<noteq> []" if "errc c = Some None \<or> result c = Some None" "storage (sq c') = InMemory m'"
      for m'
    proof (cases "late c = []")
      case True
      from D[OF that(1) True] have d: "\<forall>m. storage (sq c) = InMemory m \<longrightarrow>
          size_q (fst m) = 0 \<and> lock (fst m) \<noteq> None" by blast
      from E[OF that(1)] have "pc c = Exited" by simp
      from produced_drained[where env = env and r = r, OF c' ok n _ _ this d that(2)] show ?thesis by simp
    next
      case False
      with c' ok show ?thesis by (auto simp: produced_def split: prod.splits outcome.splits)
    qed
    with k E L show ?thesis by (auto simp: exit_inv_def)
  next
    case (StoreOnly r)
    with st n have c': "c' = produced c [r] (storeRequest env (sq c) r)" by simp
    from c' ok have k: "pc c' = pc c \<and> active c' = active c \<and> errc c' = errc c \<and>
        result c' = result c \<and> (pc c \<noteq> Exited \<longrightarrow> late c' = late c)"
      by (auto simp: produced_def split: prod.splits outcome.splits)
    have "late c' \<noteq> []" if "errc c = Some None \<or> result c = Some None" "storage (sq c') = InMemory m'"
      for m'
    proof (cases "late c = []")
      case True
      from D[OF that(1) True] have d: "\<forall>m. storage (sq c) = InMemory m \<longrightarrow>
          size_q (fst m) = 0 \<and> lock (fst m) \<noteq> None" by blast
      from E[OF that(1)] have "pc c = Exited" by simp
      from produced_drained[where env = env and r = r, OF c' ok n _ _ this d that(2)] show ?thesis by simp
    next
      case False
      with c' ok show ?thesis by (auto simp: produced_def split: prod.splits outcome.splits)
    qed
    with k E L show ?thesis by (auto simp: exit_inv_def)
  next
    case (EnqueueURL u)
    show ?thesis
    proof (cases "new_GET env u")
      case (Inl e)
      with st EnqueueURL n have "c' = c\<lparr>sq := sq c, wakers := wakers c, stored := stored c, late := late c\<rparr>"
        by (simp add: AddURL_def produced_def)
      then have "c' = c" by simp
      with inv show ?thesis by simp
    next
      case (Inr r)
      with st EnqueueURL n have c': "c' = produced c [Some r] (storeRequest env (sq c) (Some r))"
        by (simp add: AddURL_def)
      from c' ok have k: "pc c' = pc c \<and> active c' = active c \<and> errc c' = errc c \<and>
          result c' = result c \<and> (pc c \<noteq> Exited \<longrightarrow> late c' = late c)"
        by (auto simp: produced_def split: prod.splits outcome.splits)
      have "late c' \<noteq> []" if "errc c = Some None \<or> result c = Some None" "storage (sq c') = InMemory m'"
        for m'
      proof (cases "late c = []")
        case True
        from D[OF that(1) True] have d: "\<forall>m. storage (sq c) = InMemory m \<longrightarrow>
            size_q (fst m) = 0 \<and> lock (fst m) \<noteq> None" by blast
        from E[OF that(1)] have "pc c = Exited" by simp
        from produced_drained[where env = env and r = "Some r", OF c' ok n _ _ this d that(2)] show ?thesis by simp
      next
        case False
        with c' ok show ?thesis by (auto simp: produced_def split: prod.splits outcome.splits)
      qed
      with k E L show ?thesis by (auto simp: exit_inv_def)
    qed
  next
    case AskSize
    obtain out q' t where qs: "Queue_Size env (sq c) = (out, q', t)"
      by (cases "Queue_Size env (sq c)") auto
    with st AskSize ok n obtain v where c': "c' = c\<lparr>sq := q'\<rparr>" and o: "out = Return v"
      by (cases out) auto
    have "size_q (fst m) = 0 \<and> lock (fst m) \<noteq> None"
      if "errc c = Some None \<or> result c = Some None" "late c = []" "storage q' = InMemory m" for m
    proof -
      obtain k e where "v = (k, e)" by (cases v) auto
      with qs o have "Queue_Size env (sq c) = (Return (k, e), q', t)" by simp
      from Queue_Size_InMemory_after[OF this that(3)] have "q' = sq c" by simp
      with D[OF that(1,2)] that(3) show ?thesis by simp
    qed
    with c' E L show ?thesis by (auto simp: exit_inv_def)
  next
    case RunReturn
    with st obtain err where "errc c = Some err" "c' = c\<lparr>errc := None, result := Some err\<rparr>"
      by (auto split: if_splits option.splits)
    with inv show ?thesis by (auto simp: exit_inv_def)
  qed
qed

lemma exit_inv_started: "exit_inv (started q)"
  by (simp add: exit_inv_def started_def not_running_def)

text \<open>
  Claim C2, as amended. At the top of every iteration the loop queries the storage as
  it is then, and it sends \<^verbatim>\<open>nil\<close> on \<^verbatim>\<open>errc\<close> exactly when that query answers 0 without
  error and \<^verbatim>\<open>active\<close> is 0; no other transition puts anything on \<^verbatim>\<open>errc\<close>, and \<^verbatim>\<open>Run\<close>
  returns only what it receives from \<^verbatim>\<open>errc\<close>. So when \<^verbatim>\<open>Run\<close> returns \<^verbatim>\<open>nil\<close>, under
  any schedule of the loop, the workers, the producers and the callers of \<^verbatim>\<open>Size\<close>, the
  schedule contains a step of the loop at its top in which the query answered 0 with
  \<^verbatim>\<open>active\<close> 0; \<^verbatim>\<open>active\<close> is still 0 at the return; and if no producer has stored a
  request since that query, an in-memory store has \<^verbatim>\<open>size\<close> 0, \<^verbatim>\<open>Size()\<close> called on the
  coordinator in the state of the return reports 0 and \<^verbatim>\<open>IsEmpty()\<close> reports true.
\<close>

theorem Run_returns_nil_only_when_drained:
  "(pc c = Top \<and> crashed c = None \<and> errc c = None \<longrightarrow>
      (\<exists>c'. step (env :: ('r, 'x) collab) c LoopStep = Some c' \<and>
            (errc c' = Some None \<longleftrightarrow>
               fst (Queue_Size env (sq c)) = Return (0, None) \<and> active c = 0))) \<and>
   (\<forall>c'. step env c l = Some c' \<and> errc c = None \<and> errc c' \<noteq> None \<longrightarrow>
      l = LoopStep \<and> pc c = Top) \<and>
   (\<forall>c'. step env c l = Some c' \<and> result c' \<noteq> result c \<longrightarrow>
      l = RunReturn \<and> result c = None \<and> errc c \<noteq> None \<and> result c' = errc c) \<and>
   (\<forall>c'. Run env q sched = Some (Return None, c') \<longrightarrow>
      active c' = 0 \<and> pc c' = Exited \<and>
      (\<exists>pre post. \<exists>c0 :: ('r, 'x) system.
          sched = pre @ LoopStep # post \<and> exec env (started q) pre = Some c0 \<and>
          pc c0 = Top \<and> active c0 = 0 \<and>
          fst (Queue_Size env (sq c0)) = Return (0, None)) \<and>
      (\<forall>m. storage (sq c') = InMemory m \<and> late c' = [] \<longrightarrow>
         size_q (fst m) = 0 \<and>
         fst (Queue_Size env (sq c')) = Return (0, None) \<and>
         fst (IsEmpty env (sq c')) = Return True))"
proof (intro conjI allI impI)
  assume "pc c = Top \<and> crashed c = None \<and> errc c = None"
  then show "\<exists>c'. step env c LoopStep = Some c' \<and>
            (errc c' = Some None \<longleftrightarrow>
               fst (Queue_Size env (sq c)) = Return (0, None) \<and> active c = 0)"
    using loop_step_Top[of c env] by simp
next
  fix c' assume "step env c l = Some c' \<and> errc c = None \<and> errc c' \<noteq> None"
  then show "l = LoopStep" "pc c = Top" using step_errc[of env c l c'] by auto
next
  fix c' assume "step env c l = Some c' \<and> result c' \<noteq> result c"
  then show "l = RunReturn" "result c = None" "errc c \<noteq> None" "result c' = errc c"
    using step_result[of env c l c'] by auto
next
  fix c' assume run: "Run env q sched = Some (Return None, c')"
  then have rw: "Run_wait env (started q) sched = Some (Return None, c')"
    by (auto simp: Run_def split: if_splits)
  have "\<exists>(n::nat). exit_inv c' \<and> result c' = Some None \<and> crashed c' = None"
    by (rule Run_wait_invariant[where I = "\<lambda>n. exit_inv", OF _ rw exit_inv_started])
       (rule exit_step)
  then have inv: "exit_inv c'" and res: "result c' = Some None" by auto
  from inv res show "active c' = 0" by (simp add: exit_inv_def)
  from inv res show "pc c' = Exited" by (simp add: exit_inv_def)
  have "errc (started q) \<noteq> Some None" "result (started q) \<noteq> Some None"
    by (simp_all add: started_def not_running_def)
  from Run_wait_nil[OF rw this]
  show "\<exists>pre post. \<exists>c0 :: ('r, 'x) system.
          sched = pre @ LoopStep # post \<and> exec env (started q) pre = Some c0 \<and>
          pc c0 = Top \<and> active c0 = 0 \<and>
          fst (Queue_Size env (sq c0)) = Return (0, None)" .
  fix m assume m: "storage (sq c') = InMemory m \<and> late c' = []"
  with inv res have z: "size_q (fst m) = 0" "lock (fst m) \<noteq> None"
    by (auto simp: exit_inv_def)
  from z show "size_q (fst m) = 0" by simp
  from m have "Queue_Size env (sq c') = (Return (size_q (fst m), None), sq c', [Call_QueueSize])"
    using Queue_Size_InMemory[of "sq c'" m env] z by simp
  with z show "fst (Queue_Size env (sq c')) = Return (0, None)"
    "fst (IsEmpty env (sq c')) = Return True"
    by (simp_all add: IsEmpty_def)
qed

theorem Run_returns_nil_only_when_drained_witness:
  "pc (started sample_queue) = Top \<and> crashed (started sample_queue) = None \<and>
   errc (started sample_queue) = None \<and>
   step sample_env (started sample_queue) LoopStep
     = Some ((started sample_queue)\<lparr>pc := Exited, errc := Some None\<rparr>) \<and>
   fst (Queue_Size sample_env (sq (started sample_queue))) = Return (0, None) \<and>
   active (started sample_queue) = 0 \<and>
   step sample_env (started two_items) LoopStep = Some ((started two_items)\<lparr>pc := Load\<rparr>) \<and>
   fst (Queue_Size sample_env (sq (started two_items))) = Return (2, None) \<and>
   step sample_env ((started sample_queue)\<lparr>pc := Exited, errc := Some None\<rparr>) RunReturn
     = Some ((started sample_queue)\<lparr>pc := Exited, result := Some None\<rparr>) \<and>
   result ((started sample_queue)\<lparr>pc := Exited, result := Some None\<rparr>)
     = errc ((started sample_queue)\<lparr>pc := Exited, errc := Some None\<rparr>) \<and>
   Run sample_env two_items
     [LoopStep, LoopStep, Handoff 0, Enqueue (Some 9), LoopStep, LoopStep, WakeRecv, Handoff 1,
      LoopStep, LoopStep, Exec 0, CompleteRecv 0, AskSize, Handoff 0, LoopStep, Exec 1,
      CompleteRecv 1, Exec 0, CompleteRecv 0, LoopStep, RunReturn]
   = Some (Return None,
       \<lparr>sq = \<lparr>Threads = 2,
               storage = InMemory (\<lparr>MaxSize = 100000, lock = Some RWMutex, size_q = 0,
                                    first = None, last_q = Some 2\<rparr>,
                  [\<lparr>Request = Some 7, Next = Some 1\<rparr>, \<lparr>Request = Some 8, Next = Some 2\<rparr>,
                   \<lparr>Request = Some 9, Next = None\<rparr>]),
               wake = Some Chan\<rparr>,
        pc = Exited, active = 0, workers = [Idle, Idle], errc = None, result = Some None,
        wakers = 0, crashed = None, stored = [Some 9], late = [],
        loaded = [Some 7, Some 8, Some 9], handed = [Some 7, Some 8, Some 9],
        executed = [Some 7, Some 8, Some 9]\<rparr>) \<and>
   fst (Queue_Size sample_env
     \<lparr>Threads = 2,
               storage = InMemory (\<lparr>MaxSize = 100000, lock = Some RWMutex, size_q = 0,
                                    first = None, last_q = Some 2\<rparr>,
                  [\<lparr>Request = Some 7, Next = Some 1\<rparr>, \<lparr>Request = Some 8, Next = Some 2\<rparr>,
                   \<lparr>Request = Some 9, Next = None\<rparr>]),
               wake = Some Chan\<rparr>) = Return (0, None) \<and>
   exec sample_env (started two_items)
     [LoopStep, LoopStep, Handoff 0, Enqueue (Some 9), LoopStep, LoopStep, WakeRecv, Handoff 1,
      LoopStep, LoopStep, Exec 0, CompleteRecv 0, AskSize, Handoff 0, LoopStep, Exec 1,
      CompleteRecv 1, Exec 0, CompleteRecv 0]
   = Some
       \<lparr>sq = \<lparr>Threads = 2,
               storage = InMemory (\<lparr>MaxSize = 100000, lock = Some RWMutex, size_q = 0,
                                    first = None, last_q = Some 2\<rparr>,
                  [\<lparr>Request = Some 7, Next = Some 1\<rparr>, \<lparr>Request = Some 8, Next = Some 2\<rparr>,
                   \<lparr>Request = Some 9, Next = None\<rparr>]),
               wake = Some Chan\<rparr>,
        pc = Top, active = 0, workers = [Idle, Idle], errc = None, result = None,
        wakers = 0, crashed = None, stored = [Some 9], late = [],
        loaded = [Some 7, Some 8, Some 9], handed = [Some 7, Some 8, Some 9],
        executed = [Some 7, Some 8, Some 9]\<rparr>"
proof -
  let ?pre = "[LoopStep, LoopStep, Handoff 0, Enqueue (Some 9), LoopStep, LoopStep, WakeRecv,
      Handoff 1, LoopStep, LoopStep, Exec 0, CompleteRecv 0, AskSize, Handoff 0, LoopStep,
      Exec 1, CompleteRecv 1, Exec 0, CompleteRecv 0 :: nat transition]"
  let ?s = "[LoopStep, LoopStep, Handoff 0, Enqueue (Some 9), LoopStep, LoopStep, WakeRecv,
      Handoff 1, LoopStep, LoopStep, Exec 0, CompleteRecv 0, AskSize, Handoff 0, LoopStep,
      Exec 1, CompleteRecv 1, Exec 0, CompleteRecv 0, LoopStep, RunReturn :: nat transition]"
  let ?q = "\<lparr>Threads = 2,
               storage = InMemory (\<lparr>MaxSize = 100000, lock = Some RWMutex, size_q = 0,
                                    first = None, last_q = Some 2\<rparr>,
                  [\<lparr>Request = Some 7, Next = Some 1\<rparr>, \<lparr>Request = Some 8, Next = Some 2\<rparr>,
                   \<lparr>Request = Some 9, Next = None\<rparr>]),
               wake = Some Chan\<rparr> :: (nat, bytes list) Queue"
  let ?c = "\<lparr>sq = ?q,
        pc = Exited, active = 0, workers = [Idle, Idle], errc = None, result = Some None,
        wakers = 0, crashed = None, stored = [Some 9], late = [],
        loaded = [Some 7, Some 8, Some 9], handed = [Some 7, Some 8, Some 9],
        executed = [Some 7, Some 8, Some 9]\<rparr> :: (nat, bytes list) system"
  let ?d = "\<lparr>sq = ?q,
        pc = Top, active = 0, workers = [Idle, Idle], errc = None, result = None,
        wakers = 0, crashed = None, stored = [Some 9], late = [],
        loaded = [Some 7, Some 8, Some 9], handed = [Some 7, Some 8, Some 9],
        executed = [Some 7, Some 8, Some 9]\<rparr> :: (nat, bytes list) system"
  let ?e = "(started sample_queue)\<lparr>pc := Exited, errc := Some None\<rparr>"
  let ?r = "(started sample_queue)\<lparr>pc := Exited, result := Some None\<rparr>"
  have r: "Run sample_env two_items ?s = Some (Return None, ?c)"
    by (simp add: two_items_def eval_defs replicate_two)
  have x: "exec sample_env (started two_items) ?pre = Some ?d"
    by (simp add: two_items_def eval_defs replicate_two)
  have top: "pc (started sample_queue) = Top \<and> crashed (started sample_queue) = None \<and>
      errc (started sample_queue) = None"
    by (simp add: started_def not_running_def)
  have s1: "step sample_env (started sample_queue) LoopStep = Some ?e"
    by (simp add: sample_queue_def eval_defs replicate_two)
  have s2: "step sample_env (started two_items) LoopStep = Some ((started two_items)\<lparr>pc := Load\<rparr>)"
    by (simp add: two_items_def eval_defs replicate_two)
  have s3: "step sample_env ?e RunReturn = Some ?r"
    by (simp add: started_def not_running_def)
  have s4: "result ?r \<noteq> result ?e" by (simp add: started_def not_running_def)
  have z: "fst (Queue_Size sample_env (sq (started two_items))) = Return (2, None)"
    by (simp add: two_items_def eval_defs)
  have l: "storage (sq ?c) = InMemory (\<lparr>MaxSize = 100000, lock = Some RWMutex, size_q = 0,
                                    first = None, last_q = Some 2\<rparr>,
                  [\<lparr>Request = Some 7, Next = Some 1\<rparr>, \<lparr>Request = Some 8, Next = Some 2\<rparr>,
                   \<lparr>Request = Some 9, Next = None\<rparr>]) \<and> late ?c = []"
    by simp
  note t = Run_returns_nil_only_when_drained[where env = sample_env and q = two_items
        and c = "started sample_queue" and l = LoopStep and sched = ?s]
  note u = Run_returns_nil_only_when_drained[where env = sample_env and q = two_items
        and c = ?e and l = RunReturn and sched = ?s]
  from t top s1 have a: "fst (Queue_Size sample_env (sq (started sample_queue))) = Return (0, None) \<and>
      active (started sample_queue) = 0"
    by simp
  from u s3 s4 have d: "result ?r = errc ?e" by blast
  from t r l have b: "fst (Queue_Size sample_env (sq ?c)) = Return (0, None)"
    by blast
  from top s1 a s2 z s3 d r b x show ?thesis by simp
qed

text \<open>
  Claim C2 as stated fails in its last clause. \<^verbatim>\<open>New(2, nil)\<close>, then \<^verbatim>\<open>Run\<close>: the loop
  finds size 0 and \<^verbatim>\<open>active\<close> 0, sends \<^verbatim>\<open>nil\<close> on \<^verbatim>\<open>errc\<close> and exits. Before the
  goroutine that called \<^verbatim>\<open>Run\<close> receives it, another goroutine calls
  \<^verbatim>\<open>AddRequest\<close> of request 5, which is stored. \<^verbatim>\<open>Run\<close> returns \<^verbatim>\<open>nil\<close>, and \<^verbatim>\<open>Size()\<close>
  on the coordinator as \<^verbatim>\<open>Run\<close> left it reports 1.
\<close>

theorem store_after_final_query_counterexample:
  "New sample_env 2 None = (Return (Some sample_queue, None), [Call_Init]) \<and>
   Run sample_env sample_queue [LoopStep, Enqueue (Some 5), RunReturn]
     = Some (Return None,
         \<lparr>sq = \<lparr>Threads = 2,
                 storage = InMemory (\<lparr>MaxSize = 100000, lock = Some RWMutex, size_q = 1,
                                      first = Some 0, last_q = Some 0\<rparr>,
                                     [\<lparr>Request = Some 5, Next = None\<rparr>]),
                 wake = Some Chan\<rparr>,
          pc = Exited, active = 0, workers = [Idle, Idle], errc = None, result = Some None,
          wakers = 1, crashed = None, stored = [Some 5], late = [Some 5], loaded = [],
          handed = [], executed = []\<rparr>) \<and>
   Queue_Size sample_env
       \<lparr>Threads = 2,
        storage = InMemory (\<lparr>MaxSize = 100000, lock = Some RWMutex, size_q = 1,
                             first = Some 0, last_q = Some 0\<rparr>,
                            [\<lparr>Request = Some 5, Next = None\<rparr>]),
        wake = Some Chan\<rparr>
     = (Return (1, None),
        \<lparr>Threads = 2,
         storage = InMemory (\<lparr>MaxSize = 100000, lock = Some RWMutex, size_q = 1,
                              first = Some 0, last_q = Some 0\<rparr>,
                             [\<lparr>Request = Some 5, Next = None\<rparr>]),
         wake = Some Chan\<rparr>,
        [Call_QueueSize])"
  by (simp add: New_def Storage_Init_def Mem_Init_def new_InMemoryQueueStorage_def
      sample_queue_def eval_defs replicate_two)

subsection \<open>What a run executes\<close>






lemma busy_pos: "i < length ws \<Longrightarrow> ws ! i \<noteq> Idle \<Longrightarrow> 0 < busy ws"
  unfolding busy_def by (auto simp: filter_empty_conv intro: nth_mem)



















subsection \<open>A run can always finish\<close>





















end
